theory Spec2Isabelle
  imports Main "HOL-Library.AList" "HOL-Library.Char_ord" "HOL-Library.List_Lexorder"
begin

section \<open>JavaScript strings\<close>

text \<open>
  The query builder and the table explorer are TypeScript components whose decision
  logic is string processing.  A JavaScript string is embedded as a \<open>string\<close>
  (a list of 8-bit characters): the embedding covers the strings whose UTF-16 code units
  are below 256 (Latin-1), which includes every ASCII table, dataset and field name.
  The built-in methods the components call are written out below after ECMA-262.
\<close>

definition newline :: string where
  "newline = [CHR 0x0A]"

definition backtick :: string where
  "backtick = [CHR 0x60]"

text \<open>\<open>WhiteSpace\<close> and \<open>LineTerminator\<close> code points below 256: TAB, LF, VT, FF, CR, SP, NBSP.\<close>

definition isWhiteSpace :: "char \<Rightarrow> bool" where
  "isWhiteSpace c =
     (c \<in> set [CHR 0x09, CHR 0x0A, CHR 0x0B, CHR 0x0C, CHR 0x0D, CHR 0x20, CHR 0xA0])"

definition trimStart :: "string \<Rightarrow> string" where
  "trimStart s = dropWhile isWhiteSpace s"

definition trimEnd :: "string \<Rightarrow> string" where
  "trimEnd s = rev (dropWhile isWhiteSpace (rev s))"

text \<open>\<open>String.prototype.trim\<close>.\<close>

definition trim :: "string \<Rightarrow> string" where
  "trim s = trimEnd (trimStart s)"

definition upperCaseLetters :: string where
  "upperCaseLetters = ''ABCDEFGHIJKLMNOPQRSTUVWXYZ'' @
     [CHR 0xC0, CHR 0xC1, CHR 0xC2, CHR 0xC3, CHR 0xC4, CHR 0xC5, CHR 0xC6, CHR 0xC7,
      CHR 0xC8, CHR 0xC9, CHR 0xCA, CHR 0xCB, CHR 0xCC, CHR 0xCD, CHR 0xCE, CHR 0xCF,
      CHR 0xD0, CHR 0xD1, CHR 0xD2, CHR 0xD3, CHR 0xD4, CHR 0xD5, CHR 0xD6, CHR 0xD8,
      CHR 0xD9, CHR 0xDA, CHR 0xDB, CHR 0xDC, CHR 0xDD, CHR 0xDE]"

definition lowerCaseLetters :: string where
  "lowerCaseLetters = ''abcdefghijklmnopqrstuvwxyz'' @
     [CHR 0xE0, CHR 0xE1, CHR 0xE2, CHR 0xE3, CHR 0xE4, CHR 0xE5, CHR 0xE6, CHR 0xE7,
      CHR 0xE8, CHR 0xE9, CHR 0xEA, CHR 0xEB, CHR 0xEC, CHR 0xED, CHR 0xEE, CHR 0xEF,
      CHR 0xF0, CHR 0xF1, CHR 0xF2, CHR 0xF3, CHR 0xF4, CHR 0xF5, CHR 0xF6, CHR 0xF8,
      CHR 0xF9, CHR 0xFA, CHR 0xFB, CHR 0xFC, CHR 0xFD, CHR 0xFE]"

definition toLowerCaseChar :: "char \<Rightarrow> char" where
  "toLowerCaseChar c =
     (case map_of (zip upperCaseLetters lowerCaseLetters) c of Some d \<Rightarrow> d | None \<Rightarrow> c)"

text \<open>\<open>String.prototype.toLowerCase\<close>: on Latin-1 every capital maps to one code unit.\<close>

definition toLowerCase :: "string \<Rightarrow> string" where
  "toLowerCase s = map toLowerCaseChar s"

text \<open>
  \<open>String.prototype.toUpperCase\<close>: the sharp s (0xDF) becomes \<open>SS\<close>.  The capitals of the
  micro sign (0xB5) and of y with diaeresis (0xFF) are U+039C and U+0178, which are not
  Latin-1 code units; the embedding leaves these two characters unchanged, so a name that
  starts with one of them is outside what it covers.
\<close>

definition toUpperCaseChar :: "char \<Rightarrow> string" where
  "toUpperCaseChar c =
     (if c = CHR 0xDF then ''SS''
      else (case map_of (zip lowerCaseLetters upperCaseLetters) c of
              Some d \<Rightarrow> [d] | None \<Rightarrow> [c]))"

definition toUpperCase :: "string \<Rightarrow> string" where
  "toUpperCase s = concat (map toUpperCaseChar s)"

text \<open>\<open>s.startsWith(p)\<close>, \<open>s.endsWith(p)\<close> and \<open>s.includes(p)\<close>.\<close>

definition startsWith :: "string \<Rightarrow> string \<Rightarrow> bool" where
  "startsWith s p = (take (length p) s = p)"

definition endsWith :: "string \<Rightarrow> string \<Rightarrow> bool" where
  "endsWith s p = (length p \<le> length s \<and> drop (length s - length p) s = p)"

fun stringIncludes :: "string \<Rightarrow> string \<Rightarrow> bool" where
  "stringIncludes [] p = (p = [])"
| "stringIncludes (c # cs) p = (startsWith (c # cs) p \<or> stringIncludes cs p)"

text \<open>
  \<open>s.split(sep)\<close> for a one-character separator: the result always has at least one
  segment (the empty string splits into one empty segment), and no segment contains the
  separator.
\<close>

fun split :: "char \<Rightarrow> string \<Rightarrow> string list" where
  "split sep [] = [[]]"
| "split sep (c # cs) =
     (if c = sep then [] # split sep cs
      else (case split sep cs of p # ps \<Rightarrow> (c # p) # ps | [] \<Rightarrow> [[c]]))"

text \<open>\<open>parts.join(sep)\<close>.\<close>

fun join :: "string \<Rightarrow> string list \<Rightarrow> string" where
  "join sep [] = []"
| "join sep [x] = x"
| "join sep (x # y # ys) = x @ sep @ join sep (y # ys)"

text \<open>An optional string is truthy when it is present and not empty.\<close>

fun truthy :: "string option \<Rightarrow> bool" where
  "truthy None = False"
| "truthy (Some s) = (s \<noteq> [])"

text \<open>\<open>a || b\<close> on an optional string.\<close>

fun orElse :: "string option \<Rightarrow> string \<Rightarrow> string" where
  "orElse None d = d"
| "orElse (Some s) d = (if s = [] then d else s)"

section \<open>JavaScript numbers read from strings\<close>

definition isDecimalDigit :: "char \<Rightarrow> bool" where
  "isDecimalDigit c = (c \<in> set ''0123456789'')"

definition isHexDigit :: "char \<Rightarrow> bool" where
  "isHexDigit c = (c \<in> set ''0123456789abcdefABCDEF'')"

definition isOctalDigit :: "char \<Rightarrow> bool" where
  "isOctalDigit c = (c \<in> set ''01234567'')"

definition isBinaryDigit :: "char \<Rightarrow> bool" where
  "isBinaryDigit c = (c \<in> set ''01'')"

text \<open>\<open>DecimalDigits\<close>: one digit or more.\<close>

definition isDecimalDigits :: "string \<Rightarrow> bool" where
  "isDecimalDigits s = (s \<noteq> [] \<and> list_all isDecimalDigit s)"

text \<open>\<open>SignedInteger\<close>, the exponent after \<open>e\<close> or \<open>E\<close>.\<close>

fun isSignedInteger :: "string \<Rightarrow> bool" where
  "isSignedInteger [] = False"
| "isSignedInteger (c # cs) =
     (if c = CHR ''+'' \<or> c = CHR ''-'' then isDecimalDigits cs else isDecimalDigits (c # cs))"

text \<open>An optional \<open>ExponentPart\<close>.\<close>

fun isExponentPartOpt :: "string \<Rightarrow> bool" where
  "isExponentPartOpt [] = True"
| "isExponentPartOpt (c # cs) = ((c = CHR ''e'' \<or> c = CHR ''E'') \<and> isSignedInteger cs)"

text \<open>
  \<open>StrUnsignedDecimalLiteral\<close>: \<open>Infinity\<close>, digits with an optional fraction and exponent,
  or a fraction that starts with the point.
\<close>

definition isStrUnsignedDecimalLiteral :: "string \<Rightarrow> bool" where
  "isStrUnsignedDecimalLiteral s =
     (s = ''Infinity'' \<or>
      (let intPart = takeWhile isDecimalDigit s; afterInt = dropWhile isDecimalDigit s
       in case afterInt of
            [] \<Rightarrow> intPart \<noteq> []
          | c # afterPoint \<Rightarrow>
              if c = CHR ''.''
              then (let fraction = takeWhile isDecimalDigit afterPoint;
                        afterFraction = dropWhile isDecimalDigit afterPoint
                    in (intPart \<noteq> [] \<or> fraction \<noteq> []) \<and> isExponentPartOpt afterFraction)
              else intPart \<noteq> [] \<and> isExponentPartOpt afterInt))"

fun isStrDecimalLiteral :: "string \<Rightarrow> bool" where
  "isStrDecimalLiteral [] = False"
| "isStrDecimalLiteral (c # cs) =
     (if c = CHR ''+'' \<or> c = CHR ''-'' then isStrUnsignedDecimalLiteral cs
      else isStrUnsignedDecimalLiteral (c # cs))"

text \<open>\<open>NonDecimalIntegerLiteral\<close>: \<open>0x\<close>, \<open>0o\<close> or \<open>0b\<close> and at least one digit; no sign.\<close>

fun isNonDecimalIntegerLiteral :: "string \<Rightarrow> bool" where
  "isNonDecimalIntegerLiteral (z # r # ds) =
     (z = CHR ''0'' \<and> ds \<noteq> [] \<and>
      ((r \<in> set ''xX'' \<and> list_all isHexDigit ds) \<or>
       (r \<in> set ''oO'' \<and> list_all isOctalDigit ds) \<or>
       (r \<in> set ''bB'' \<and> list_all isBinaryDigit ds)))"
| "isNonDecimalIntegerLiteral _ = False"

definition isStrNumericLiteral :: "string \<Rightarrow> bool" where
  "isStrNumericLiteral s = (isStrDecimalLiteral s \<or> isNonDecimalIntegerLiteral s)"

text \<open>
  \<open>isNaN(Number(s))\<close> for a string \<open>s\<close>: \<open>Number\<close> strips white space on both sides, reads
  the empty string as \<open>0\<close> and a \<open>StrNumericLiteral\<close> as its value (possibly infinite), and
  yields \<open>NaN\<close> for everything else.
\<close>

definition numberIsNaN :: "string \<Rightarrow> bool" where
  "numberIsNaN s = (let t = trim s in t \<noteq> [] \<and> \<not> isStrNumericLiteral t)"

definition digitValue :: "char \<Rightarrow> nat" where
  "digitValue c = length (takeWhile (\<lambda>d. d \<noteq> c) ''0123456789'')"

definition digitsToInt :: "string \<Rightarrow> int" where
  "digitsToInt ds = foldl (\<lambda>acc c. 10 * acc + int (digitValue c)) 0 ds"

text \<open>
  \<open>parseInt(s, 10)\<close>: leading white space and one sign are skipped, the longest run of
  decimal digits is read, and the result is \<open>NaN\<close> (here \<open>None\<close>) when that run is empty.
  The value is kept as an exact integer; JavaScript rounds it to a double from \<open>2^53\<close> on.
\<close>

definition parseInt10 :: "string \<Rightarrow> int option" where
  "parseInt10 s =
     (let t = trimStart s;
          negative = startsWith t ''-'';
          u = (if startsWith t ''-'' \<or> startsWith t ''+'' then drop 1 t else t);
          ds = takeWhile isDecimalDigit u
      in if ds = [] then None
         else Some (if negative then - digitsToInt ds else digitsToInt ds))"

definition digitChar :: "nat \<Rightarrow> char" where
  "digitChar d = ''0123456789'' ! d"

fun showNat :: "nat \<Rightarrow> string" where
  "showNat n = (if n < 10 then [digitChar n] else showNat (n div 10) @ [digitChar (n mod 10)])"

text \<open>The decimal digits of an integer, with its sign.\<close>

definition showInt :: "int \<Rightarrow> string" where
  "showInt i = (if i < 0 then ''-'' @ showNat (nat (- i)) else showNat (nat i))"

text \<open>
  A value of the type \<open>number\<close>.  \<open>SafeInt n\<close> is the integer \<open>n\<close>, for \<open>n\<close> of magnitude
  below \<open>2^53\<close> (negative zero is \<open>SafeInt 0\<close>: it is falsy and written \<open>0\<close> like zero);
  \<open>OtherFinite t\<close> is any other finite number, a fraction or an integer from \<open>2^53\<close> on,
  given by the text \<open>t\<close> that \<open>Number::toString\<close> writes for it, and is never zero; the
  rest are \<open>NaN\<close> and the two infinities.
\<close>

datatype jsNumber = SafeInt int | OtherFinite string | NaN | PosInfinity | NegInfinity

text \<open>A number in a condition: \<open>0\<close> and \<open>NaN\<close> are falsy, every other number is truthy.\<close>

fun numberTruthy :: "jsNumber \<Rightarrow> bool" where
  "numberTruthy (SafeInt n) = (n \<noteq> 0)"
| "numberTruthy (OtherFinite t) = True"
| "numberTruthy NaN = False"
| "numberTruthy PosInfinity = True"
| "numberTruthy NegInfinity = True"

text \<open>A number written into a template literal (\<open>Number::toString\<close>).\<close>

fun numberText :: "jsNumber \<Rightarrow> string" where
  "numberText (SafeInt n) = showInt n"
| "numberText (OtherFinite t) = t"
| "numberText NaN = ''NaN''"
| "numberText PosInfinity = ''Infinity''"
| "numberText NegInfinity = ''-Infinity''"

section \<open>JavaScript objects and arrays\<close>

text \<open>
  An ordinary object used as a dictionary is the list of its own properties in the order
  in which \<open>Object.entries\<close> (and \<open>Object.keys\<close>, \<open>for-in\<close>) enumerates them: first the
  keys that are array indices (canonical decimal strings below \<open>2^32 - 1\<close>) in ascending
  numeric order, then every other key in the order of its creation.
\<close>

type_synonym 'v object = "(string \<times> 'v) list"

definition arrayIndex :: "string \<Rightarrow> int option" where
  "arrayIndex k =
     (if (k = ''0'' \<or> (isDecimalDigits k \<and> take 1 k \<noteq> ''0'')) \<and> digitsToInt k < 4294967295
      then Some (digitsToInt k) else None)"

text \<open>Whether a new key \<open>k\<close> is enumerated before the existing key \<open>k'\<close>.\<close>

definition keyBefore :: "string \<Rightarrow> string \<Rightarrow> bool" where
  "keyBefore k k' =
     (case arrayIndex k of
        None \<Rightarrow> False
      | Some i \<Rightarrow> (case arrayIndex k' of None \<Rightarrow> True | Some j \<Rightarrow> i < j))"

fun insertNew :: "string \<Rightarrow> 'v \<Rightarrow> 'v object \<Rightarrow> 'v object" where
  "insertNew k v [] = [(k, v)]"
| "insertNew k v ((k', v') # ps) =
     (if keyBefore k k' then (k, v) # (k', v') # ps else (k', v') # insertNew k v ps)"

text \<open>\<open>obj[k]\<close> read as an own property, and the assignment \<open>obj[k] = v\<close>.\<close>

definition getProp :: "'v object \<Rightarrow> string \<Rightarrow> 'v option" where
  "getProp obj k = map_of obj k"

definition setProp :: "string \<Rightarrow> 'v \<Rightarrow> 'v object \<Rightarrow> 'v object" where
  "setProp k v obj =
     (case getProp obj k of
        None \<Rightarrow> insertNew k v obj
      | Some old \<Rightarrow> AList.update k v obj)"

definition Object_entries :: "'v object \<Rightarrow> (string \<times> 'v) list" where
  "Object_entries obj = obj"

definition Object_fromEntries :: "(string \<times> 'v) list \<Rightarrow> 'v object" where
  "Object_fromEntries es = foldl (\<lambda>obj (k, v). setProp k v obj) [] es"

text \<open>
  A read \<open>obj[k]\<close> of a key that is not an own property goes on to \<open>Object.prototype\<close>.
  These are its members whose names contain no underscore (a segment of a name split on
  underscores cannot be one of the others); each is a function.
\<close>

definition objectPrototypeMembers :: "string list" where
  "objectPrototypeMembers =
     [''constructor'', ''hasOwnProperty'', ''isPrototypeOf'', ''propertyIsEnumerable'',
      ''toLocaleString'', ''toString'', ''valueOf'']"

text \<open>
  The members every built-in function shows (its own \<open>length\<close> and \<open>name\<close>, those of
  \<open>Function.prototype\<close> and of \<open>Object.prototype\<close>), and those the constructor \<open>Object\<close>
  adds (ECMAScript 2024); none of them is an array.
\<close>

definition functionMembers :: "string list" where
  "functionMembers =
     [''length'', ''name'', ''apply'', ''arguments'', ''bind'', ''call'', ''caller'']
     @ objectPrototypeMembers"

definition objectConstructorMembers :: "string list" where
  "objectConstructorMembers =
     [''prototype'', ''assign'', ''create'', ''defineProperties'', ''defineProperty'',
      ''entries'', ''freeze'', ''fromEntries'', ''getOwnPropertyDescriptor'',
      ''getOwnPropertyDescriptors'', ''getOwnPropertyNames'', ''getOwnPropertySymbols'',
      ''getPrototypeOf'', ''groupBy'', ''hasOwn'', ''is'', ''isExtensible'', ''isFrozen'',
      ''isSealed'', ''keys'', ''preventExtensions'', ''seal'', ''setPrototypeOf'', ''values'']"

definition inheritedMembers :: "string \<Rightarrow> string list" where
  "inheritedMembers f =
     functionMembers @ (if f = ''constructor'' then objectConstructorMembers else [])"

datatype error = TypeError

text \<open>
  \<open>Array.prototype.sort\<close> with a comparator: the sort is stable, an element \<open>x\<close> goes
  before \<open>y\<close> when the comparator is negative and equal elements keep their order.  For a
  consistent comparator this determines the result, which insertion from the right
  computes; for an inconsistent one ECMA-262 leaves the order to the implementation.
\<close>

fun insertBy :: "('a \<Rightarrow> 'a \<Rightarrow> int) \<Rightarrow> 'a \<Rightarrow> 'a list \<Rightarrow> 'a list" where
  "insertBy cmp x [] = [x]"
| "insertBy cmp x (y # ys) = (if cmp x y \<le> 0 then x # y # ys else y # insertBy cmp x ys)"

definition sortBy :: "('a \<Rightarrow> 'a \<Rightarrow> int) \<Rightarrow> 'a list \<Rightarrow> 'a list" where
  "sortBy cmp xs = foldr (insertBy cmp) xs []"

text \<open>
  \<open>Array.prototype.sort\<close> without a comparator orders strings by their code units, which is
  the lexicographic order of \<open>string\<close>; the order is linear, so the sorted list is unique.
\<close>

definition sortDefault :: "string list \<Rightarrow> string list" where
  "sortDefault xs = sort xs"

section \<open>Table names: \<open>parseTableName\<close> (TableSelector.tsx)\<close>

record ParsedTable =
  name :: string
  year :: "string option"
  month :: "string option"
  day :: "string option"
  type :: "string option"

definition parseTableName :: "string \<Rightarrow> ParsedTable" where
  "parseTableName table =
     (let parts = split (CHR ''_'') table;
          result = \<lparr>name = table, year = None, month = None, day = None, type = None\<rparr>
      in if length parts \<ge> 3
         then (let y = parts ! 0; m = parts ! 1; d = parts ! 2; rest = drop 3 parts
               in if \<not> numberIsNaN y \<and> \<not> numberIsNaN m \<and> \<not> numberIsNaN d
                  then result\<lparr>year := Some y, month := Some m, day := Some d,
                              type := Some (join ''_'' rest)\<rparr>
                  else result)
         else result)"

section \<open>Browsing tables and datasets (Explorer.tsx)\<close>

text \<open>
  \<open>TableGroup\<close> is \<open>{ year, months }\<close>; its first field is called \<open>groupYear\<close> here, the
  name \<open>year\<close> being taken by \<open>ParsedTable\<close>.
\<close>

record TableGroup =
  groupYear :: string
  months :: "string list object"

record DatasetGroup =
  category :: string
  datasets :: "string list"

text \<open>
  The callback of \<open>tables.forEach\<close> in \<open>groupTablesByDate\<close>, on the dictionary
  \<open>groups\<close> (year to month to table names).  The reads \<open>groups[year]\<close> and
  \<open>groups[year][month]\<close> see inherited members too:
  \<^item> a month that names a member of \<open>Object.prototype\<close> is read as that function, which is
    truthy and has no \<open>push\<close>, so the call throws a \<open>TypeError\<close>;
  \<^item> a year that names a member of \<open>Object.prototype\<close> is read as that function, so no own
    property is created for it: the table is stored on the function object (or the call
    throws, when the month names a member of that function) and never reaches the result.
\<close>

definition addTable ::
  "string list object object \<Rightarrow> string \<Rightarrow> error + string list object object" where
  "addTable groups table =
     (let parts = split (CHR ''_'') table
      in if length parts \<ge> 3
         then (let y = parts ! 0; m = parts ! 1
               in case getProp groups y of
                    None \<Rightarrow>
                      if y \<in> set objectPrototypeMembers
                      then (if m \<in> set (inheritedMembers y) then Inl TypeError else Inr groups)
                      else if m \<in> set objectPrototypeMembers then Inl TypeError
                      else Inr (setProp y [(m, [table])] groups)
                  | Some ms \<Rightarrow>
                      (case getProp ms m of
                         None \<Rightarrow>
                           if m \<in> set objectPrototypeMembers then Inl TypeError
                           else Inr (setProp y (setProp m [table] ms) groups)
                       | Some ts \<Rightarrow> Inr (setProp y (setProp m (ts @ [table]) ms) groups)))
         else Inr groups)"

fun forEachTable ::
  "string list object object \<Rightarrow> string list \<Rightarrow> error + string list object object" where
  "forEachTable groups [] = Inr groups"
| "forEachTable groups (table # tables) =
     (case addTable groups table of
        Inl e \<Rightarrow> Inl e
      | Inr groups' \<Rightarrow> forEachTable groups' tables)"

text \<open>
  The comparator of the month sort, \<open>parseInt(b[0], 10) - parseInt(a[0], 10)\<close>; a \<open>NaN\<close>
  difference counts as \<open>0\<close> in \<open>Array.prototype.sort\<close>.
\<close>

definition monthCompare :: "string \<times> 'v \<Rightarrow> string \<times> 'v \<Rightarrow> int" where
  "monthCompare a b =
     (case parseInt10 (fst a) of
        None \<Rightarrow> 0
      | Some monthA \<Rightarrow> (case parseInt10 (fst b) of None \<Rightarrow> 0 | Some monthB \<Rightarrow> monthB - monthA))"

text \<open>
  \<open>groupTablesByDate\<close>.  \<open>localeCompare\<close> is the host's collation
  (\<open>String.prototype.localeCompare\<close>), taken as a parameter.
\<close>

definition groupTablesByDate ::
  "(string \<Rightarrow> string \<Rightarrow> int) \<Rightarrow> string list option \<Rightarrow> error + TableGroup list" where
  "groupTablesByDate localeCompare tables =
     (case tables of
        None \<Rightarrow> Inr []
      | Some ts \<Rightarrow>
          (case forEachTable [] ts of
             Inl e \<Rightarrow> Inl e
           | Inr groups \<Rightarrow>
               Inr (map (\<lambda>(y, ms).
                          \<lparr>groupYear = y,
                           months = Object_fromEntries (sortBy monthCompare (Object_entries ms))\<rparr>)
                      (sortBy (\<lambda>a b. localeCompare (fst b) (fst a)) (Object_entries groups)))))"

text \<open>The table names a result shows, in the order in which the groups are rendered.\<close>

definition groupedTables :: "TableGroup list \<Rightarrow> string list" where
  "groupedTables gs = concat (map (\<lambda>g. concat (map snd (Object_entries (months g)))) gs)"

text \<open>\<open>prefixMap\<close>: no key is an array index, so \<open>Object.entries\<close> keeps the declaration order.\<close>

definition prefixMap :: "(string \<times> string) list" where
  "prefixMap =
     [(''docker_listings'', ''Docker Listings''),
      (''docker_product'', ''Docker Products''),
      (''docker_sellers'', ''Docker Sellers''),
      (''ck'', ''Card Kingdom''),
      (''fab'', ''Flesh and Blood''),
      (''mtg'', ''Magic the Gathering''),
      (''poke'', ''Pokemon''),
      (''ban'', ''BAN''),
      (''yugi'', ''Yu-Gi-Oh!''),
      (''yugioh'', ''Yu-Gi-Oh!'')]"

text \<open>The \<open>for ... of\<close> loop over the prefixes, left at the first match.\<close>

fun matchPrefix :: "(string \<times> string) list \<Rightarrow> string \<Rightarrow> string option" where
  "matchPrefix [] dataset = None"
| "matchPrefix ((prefix, categoryName) # rest) dataset =
     (if startsWith dataset prefix then Some categoryName else matchPrefix rest dataset)"

definition categoryOf :: "string \<Rightarrow> string" where
  "categoryOf dataset =
     (case matchPrefix prefixMap dataset of
        Some categoryName \<Rightarrow> categoryName
      | None \<Rightarrow>
          if stringIncludes dataset ''_''
          then (let prefix = hd (split (CHR ''_'') dataset)
                in toUpperCase (take 1 prefix) @ drop 1 prefix)
          else ''Other'')"

text \<open>The callback of \<open>datasets.forEach\<close> in \<open>groupDatasets\<close>.\<close>

definition addDataset :: "string list object \<Rightarrow> string \<Rightarrow> string list object" where
  "addDataset groups dataset =
     (let c = categoryOf dataset
      in case getProp groups c of
           None \<Rightarrow> setProp c [dataset] groups
         | Some ds \<Rightarrow> setProp c (ds @ [dataset]) groups)"

definition categoryCompare ::
  "(string \<Rightarrow> string \<Rightarrow> int) \<Rightarrow> string \<times> 'v \<Rightarrow> string \<times> 'v \<Rightarrow> int" where
  "categoryCompare localeCompare a b =
     (if fst a = ''Other'' then 1
      else if fst b = ''Other'' then - 1
      else localeCompare (fst a) (fst b))"

definition groupDatasets ::
  "(string \<Rightarrow> string \<Rightarrow> int) \<Rightarrow> string list option \<Rightarrow> DatasetGroup list" where
  "groupDatasets localeCompare ds =
     (case ds of
        None \<Rightarrow> []
      | Some dsets \<Rightarrow>
          map (\<lambda>(c, members). \<lparr>category = c, datasets = sortDefault members\<rparr>)
            (sortBy (categoryCompare localeCompare)
               (Object_entries (foldl addDataset [] dsets))))"

text \<open>
  \<open>insertFieldIntoQuery\<close>: the callback closes over \<open>query\<close>, \<open>selectedDataset\<close> and
  \<open>selectedTable\<close>, and hands the new text to \<open>setQuery\<close>.
\<close>

definition qualifierPrefix :: "string option \<Rightarrow> string option \<Rightarrow> string" where
  "qualifierPrefix selectedDataset selectedTable =
     (if truthy selectedDataset \<and> truthy selectedTable
      then backtick @ orElse selectedDataset [] @ ''.'' @ orElse selectedTable [] @ backtick
      else [])"

definition insertFieldIntoQuery ::
  "string \<Rightarrow> string option \<Rightarrow> string option \<Rightarrow> string \<Rightarrow> string" where
  "insertFieldIntoQuery query selectedDataset selectedTable fieldName =
     (let prefix = qualifierPrefix selectedDataset selectedTable;
          isNewSelect = (\<not> stringIncludes (toLowerCase query) ''select'');
          hasExistingFields = (stringIncludes (toLowerCase query) ''select'' \<and>
                               \<not> endsWith (trim (toLowerCase query)) ''select'')
      in if length query > 0
         then (if isNewSelect then ''SELECT '' @ prefix @ ''.'' @ fieldName
               else if hasExistingFields
                    then query @ '','' @ newline @ ''  '' @ prefix @ ''.'' @ fieldName
                    else query @ '' '' @ prefix @ ''.'' @ fieldName)
         else ''SELECT '' @ prefix @ ''.'' @ fieldName)"

section \<open>The query builder (\<open>QueryBuilder\<close>, with the types of types.d.ts)\<close>

text \<open>
  Field names that Isabelle reserves or that two interfaces share carry the interface's
  name: \<open>where\<close> is \<open>whereClause\<close>, \<open>distinct\<close> is \<open>distinctFlag\<close>, \<open>value\<close> is
  \<open>condValue\<close>, \<open>alias\<close> is \<open>ownAlias\<close>, and so on.
\<close>

datatype AggregationType = AggCOUNT | AggSUM | AggAVG | AggMIN | AggMAX | AggGROUP_CONCAT

record QueryField =
  fieldName :: string
  ownAlias :: "string option"
  tableAlias :: "string option"
  expression :: "string option"
  aggregation :: "AggregationType option"

datatype ComparisonOperator = OpEq | OpNe | OpGt | OpLt | OpGe | OpLe | OpLIKE | OpIN

fun operatorText :: "ComparisonOperator \<Rightarrow> string" where
  "operatorText OpEq = ''=''"
| "operatorText OpNe = ''!=''"
| "operatorText OpGt = ''>''"
| "operatorText OpLt = ''<''"
| "operatorText OpGe = ''>=''"
| "operatorText OpLe = ''<=''"
| "operatorText OpLIKE = ''LIKE''"
| "operatorText OpIN = ''IN''"

datatype JoinType = INNER | LEFT | RIGHT | FULL

fun joinTypeText :: "JoinType \<Rightarrow> string" where
  "joinTypeText INNER = ''INNER''"
| "joinTypeText LEFT = ''LEFT''"
| "joinTypeText RIGHT = ''RIGHT''"
| "joinTypeText FULL = ''FULL''"

record JoinCondition =
  leftField :: string
  rightField :: string
  joinOperator :: ComparisonOperator

record JoinClause =
  joinType :: JoinType
  joinTable :: string
  joinTableAlias :: string
  joinConditions :: "JoinCondition list"

text \<open>\<open>value: any\<close> of a \<open>WhereCondition\<close>: the embedding covers the JSON primitives.\<close>

datatype jsValue = JString string | JNumber jsNumber | JBoolean bool | JNull

record WhereCondition =
  whereField :: string
  operator :: ComparisonOperator
  condValue :: jsValue
  isField :: "bool option"

datatype Conjunction = ConjAND | ConjOR

fun conjunctionText :: "Conjunction \<Rightarrow> string" where
  "conjunctionText ConjAND = ''AND''"
| "conjunctionText ConjOR = ''OR''"

record WhereClause =
  conditions :: "WhereCondition list"
  conjunction :: Conjunction

record GroupByClause =
  groupFields :: "string list"
  having :: "WhereClause option"

datatype Direction = ASC | DESC

fun directionText :: "Direction \<Rightarrow> string" where
  "directionText ASC = ''ASC''"
| "directionText DESC = ''DESC''"

record OrderByClause =
  orderField :: string
  direction :: Direction

record QueryBuilderState =
  selectedFields :: "QueryField list"
  joins :: "JoinClause list"
  whereClause :: "WhereClause option"
  groupBy :: "GroupByClause option"
  orderBy :: "OrderByClause list option"
  limit :: "jsNumber option"
  offset :: "jsNumber option"
  distinctFlag :: bool

text \<open>\<open>JSON.stringify\<close> of a string: \<open>QuoteJSONString\<close>.\<close>

definition hexDigitChar :: "nat \<Rightarrow> char" where
  "hexDigitChar d = ''0123456789abcdef'' ! d"

definition jsonEscapeChar :: "char \<Rightarrow> string" where
  "jsonEscapeChar c =
     (if c = CHR 0x22 then [CHR 0x5C, CHR 0x22]
      else if c = CHR 0x5C then [CHR 0x5C, CHR 0x5C]
      else if c = CHR 0x08 then [CHR 0x5C, CHR ''b'']
      else if c = CHR 0x09 then [CHR 0x5C, CHR ''t'']
      else if c = CHR 0x0A then [CHR 0x5C, CHR ''n'']
      else if c = CHR 0x0C then [CHR 0x5C, CHR ''f'']
      else if c = CHR 0x0D then [CHR 0x5C, CHR ''r'']
      else if (of_char c :: nat) < 32
           then [CHR 0x5C, CHR ''u'', CHR ''0'', CHR ''0'',
                 hexDigitChar ((of_char c :: nat) div 16), hexDigitChar ((of_char c :: nat) mod 16)]
      else [c])"

definition quoteJSONString :: "string \<Rightarrow> string" where
  "quoteJSONString s = [CHR 0x22] @ concat (map jsonEscapeChar s) @ [CHR 0x22]"

fun JSON_stringify :: "jsValue \<Rightarrow> string" where
  "JSON_stringify (JString s) = quoteJSONString s"
| "JSON_stringify (JNumber n) =
     (if n = NaN \<or> n = PosInfinity \<or> n = NegInfinity then ''null'' else numberText n)"
| "JSON_stringify (JBoolean b) = (if b then ''true'' else ''false'')"
| "JSON_stringify JNull = ''null''"

text \<open>A value written into a template literal.\<close>

fun templateText :: "jsValue \<Rightarrow> string" where
  "templateText (JString s) = s"
| "templateText (JNumber n) = numberText n"
| "templateText (JBoolean b) = (if b then ''true'' else ''false'')"
| "templateText JNull = ''null''"

text \<open>The parts of the callback of \<open>selectedFields.map\<close>: \<open>fieldRef\<close>, \<open>alias\<close>, and its result.\<close>

definition fieldRef :: "QueryField \<Rightarrow> string" where
  "fieldRef field =
     (if truthy (tableAlias field) then orElse (tableAlias field) [] @ ''.'' @ fieldName field
      else fieldName field)"

definition fieldAlias :: "QueryField \<Rightarrow> string" where
  "fieldAlias field =
     orElse (ownAlias field) (fieldName field @ ''_'' @ orElse (tableAlias field) ''main'')"

definition selectedFieldText :: "bool \<Rightarrow> QueryField \<Rightarrow> string" where
  "selectedFieldText autoAlias field =
     (if autoAlias then fieldRef field @ '' AS '' @ fieldAlias field else fieldRef field)"

definition joinText :: "JoinClause \<Rightarrow> string" where
  "joinText j =
     joinTypeText (joinType j) @ '' JOIN '' @ joinTable j @ '' AS '' @ joinTableAlias j @ '' ON '' @
     join '' AND ''
       (map (\<lambda>cond. leftField cond @ '' '' @ operatorText (joinOperator cond) @ '' '' @ rightField cond)
          (joinConditions j))"

definition conditionText :: "WhereCondition \<Rightarrow> string" where
  "conditionText cond =
     whereField cond @ '' '' @ operatorText (operator cond) @ '' '' @
     (if isField cond = Some True then templateText (condValue cond)
      else JSON_stringify (condValue cond))"

definition conditionsText :: "WhereClause \<Rightarrow> string" where
  "conditionsText w =
     join ('' '' @ conjunctionText (conjunction w) @ '' '') (map conditionText (conditions w))"

text \<open>
  \<open>updateQueryFromState\<close> builds the text by appending to \<open>query\<close>, one guarded block per
  clause.  Each block is written as the text it appends (empty when its guard fails), in
  the order of the source.
\<close>

text \<open>\<open>SELECT\<close>, the field list and \<open>FROM\<close>, with the placeholder for the table.\<close>

definition selectText :: "bool \<Rightarrow> bool \<Rightarrow> QueryField list \<Rightarrow> string" where
  "selectText stateDistinct autoAlias fs =
     (let fieldList = join ('','' @ newline @ ''  '') (map (selectedFieldText autoAlias) fs)
      in ''SELECT'' @ (if stateDistinct then '' DISTINCT'' else []) @ newline @ ''  '' @
         fieldList @ newline @ ''FROM ${TABLE}'')"

text \<open>"Add joins if present".\<close>

definition joinsText :: "JoinClause list \<Rightarrow> string" where
  "joinsText js = (if length js > 0 then newline @ join newline (map joinText js) else [])"

text \<open>"Add where clause if present".\<close>

definition whereText :: "WhereClause option \<Rightarrow> string" where
  "whereText w =
     (case w of
        None \<Rightarrow> []
      | Some wc \<Rightarrow>
          if length (conditions wc) > 0 then newline @ ''WHERE '' @ conditionsText wc else [])"

text \<open>"Add group by if present", with \<open>HAVING\<close> inside it.\<close>

definition groupByText :: "GroupByClause option \<Rightarrow> string" where
  "groupByText g =
     (case g of
        None \<Rightarrow> []
      | Some gc \<Rightarrow>
          if length (groupFields gc) > 0
          then newline @ ''GROUP BY '' @ join '', '' (groupFields gc) @
               (case having gc of
                  None \<Rightarrow> []
                | Some h \<Rightarrow> newline @ ''HAVING '' @ conditionsText h)
          else [])"

text \<open>"Add order by if present".\<close>

definition orderByText :: "OrderByClause list option \<Rightarrow> string" where
  "orderByText ob =
     (case ob of
        None \<Rightarrow> []
      | Some os \<Rightarrow>
          if length os > 0
          then newline @ ''ORDER BY '' @
               join '', '' (map (\<lambda>order. orderField order @ '' '' @
                                        directionText (direction order)) os)
          else [])"

text \<open>"Add limit and offset if present": \<open>if (newState.limit)\<close>, and inside it \<open>if (newState.offset)\<close>.\<close>

definition limitText :: "jsNumber option \<Rightarrow> jsNumber option \<Rightarrow> string" where
  "limitText l off =
     (case l of
        None \<Rightarrow> []
      | Some n \<Rightarrow>
          if numberTruthy n
          then newline @ ''LIMIT '' @ numberText n @
               (case off of
                  None \<Rightarrow> []
                | Some k \<Rightarrow>
                    if numberTruthy k then newline @ ''OFFSET '' @ numberText k else [])
          else [])"

text \<open>
  The callback closes over \<open>state.distinct\<close> and \<open>autoAlias\<close> of the render that created it
  (its dependency list names both) and takes \<open>newState\<close>.  It hands the text to
  \<open>onQueryChange\<close> and, unless the selection is empty, \<open>newState\<close> to \<open>onStateChange\<close>: the
  result is the pair of the two.
\<close>

definition updateQueryFromState ::
  "bool \<Rightarrow> bool \<Rightarrow> QueryBuilderState \<Rightarrow> string \<times> QueryBuilderState option" where
  "updateQueryFromState stateDistinct autoAlias newState =
     (if length (selectedFields newState) = 0 then ([], None)
      else (selectText stateDistinct autoAlias (selectedFields newState) @
            joinsText (joins newState) @
            whereText (whereClause newState) @
            groupByText (groupBy newState) @
            orderByText (orderBy newState) @
            limitText (limit newState) (offset newState),
            Some newState))"

text \<open>
  The handlers of one render, on its \<open>state\<close> and \<open>autoAlias\<close>: each builds \<open>newState\<close>,
  passes it to \<open>setState\<close> (the first component of the result) and calls the
  \<open>updateQueryFromState\<close> of that render.
\<close>

definition onDistinctChange ::
  "QueryBuilderState \<Rightarrow> bool \<Rightarrow> bool \<Rightarrow>
   QueryBuilderState \<times> (string \<times> QueryBuilderState option)" where
  "onDistinctChange state autoAlias checked =
     (let newState = state\<lparr>distinctFlag := checked\<rparr>
      in (newState, updateQueryFromState (distinctFlag state) autoAlias newState))"

definition handleFieldSelect ::
  "QueryBuilderState \<Rightarrow> bool \<Rightarrow> QueryField \<Rightarrow>
   QueryBuilderState \<times> (string \<times> QueryBuilderState option)" where
  "handleFieldSelect state autoAlias field =
     (let newState = state\<lparr>selectedFields := selectedFields state @ [field]\<rparr>
      in (newState, updateQueryFromState (distinctFlag state) autoAlias newState))"

definition handleFieldRemove ::
  "QueryBuilderState \<Rightarrow> bool \<Rightarrow> string \<Rightarrow>
   QueryBuilderState \<times> (string \<times> QueryBuilderState option)" where
  "handleFieldRemove state autoAlias fname =
     (let newState = state\<lparr>selectedFields :=
                              filter (\<lambda>f. fieldName f \<noteq> fname) (selectedFields state)\<rparr>
      in (newState, updateQueryFromState (distinctFlag state) autoAlias newState))"

text \<open>
  The state the component starts from when it is given no \<open>initialState\<close>, and the field
  object \<open>{ fieldName }\<close> that \<open>FieldSelector\<close> passes to \<open>onFieldSelect\<close>.
\<close>

definition initialState :: QueryBuilderState where
  "initialState =
     \<lparr>selectedFields = [], joins = [], whereClause = None, groupBy = None, orderBy = None,
      limit = None, offset = None, distinctFlag = False\<rparr>"

definition newField :: "string \<Rightarrow> QueryField" where
  "newField n =
     \<lparr>fieldName = n, ownAlias = None, tableAlias = None, expression = None,
      aggregation = None\<rparr>"

section \<open>Notions used in the statements and proofs\<close>

text \<open>
  A comparator to run the sorting functions on: strings compared by their code units.
  Host collations differ from it on letters of different case and on accents.
\<close>

definition codeUnitCompare :: "string \<Rightarrow> string \<Rightarrow> int" where
  "codeUnitCompare a b = (if a < b then - 1 else if b < a then 1 else 0)"

text \<open>
  Where a result shows each table name: the triples of year, month and table name, in the
  order in which the groups are rendered.
\<close>

definition placements :: "TableGroup list \<Rightarrow> (string \<times> string \<times> string) list" where
  "placements gs =
     concat (map (\<lambda>g. concat (map (\<lambda>(m, ts). map (\<lambda>t. (groupYear g, m, t)) ts)
                                (Object_entries (months g)))) gs)"

text \<open>The same triples for the months of one year, and for the whole dictionary.\<close>

definition monthPlaces :: "string \<Rightarrow> string list object \<Rightarrow> (string \<times> string \<times> string) set" where
  "monthPlaces y ms = (\<Union>(m, ts)\<in>set ms. (\<lambda>t. (y, m, t)) ` set ts)"

definition storedPlaces :: "string list object object \<Rightarrow> (string \<times> string \<times> string) set" where
  "storedPlaces groups = (\<Union>(y, ms)\<in>set groups. monthPlaces y ms)"

text \<open>
  What \<open>groups\<close> satisfies throughout \<open>tables.forEach\<close>: no key occurs twice, and no key is
  the name of a member of \<open>Object.prototype\<close>.
\<close>

definition wellKeyed :: "string list object object \<Rightarrow> bool" where
  "wellKeyed groups \<longleftrightarrow>
     distinct (map fst groups) \<and>
     (\<forall>(y, ms)\<in>set groups.
        y \<notin> set objectPrototypeMembers \<and> distinct (map fst ms) \<and>
        (\<forall>(m, ts)\<in>set ms. m \<notin> set objectPrototypeMembers))"

text \<open>The table names that the callback stores in \<open>groups\<close>, when it does not throw.\<close>

definition grouped :: "string \<Rightarrow> bool" where
  "grouped table =
     (length (split (CHR ''_'') table) \<ge> 3 \<and>
      split (CHR ''_'') table ! 0 \<notin> set objectPrototypeMembers)"

text \<open>
  The table names on which the callback of \<open>tables.forEach\<close> throws: at least three
  segments, and the month segment names a member of what \<open>groups[year]\<close> is read as.
\<close>

definition throwsOn :: "string \<Rightarrow> bool" where
  "throwsOn table =
     (let parts = split (CHR ''_'') table
      in length parts \<ge> 3 \<and>
         (if parts ! 0 \<in> set objectPrototypeMembers
          then parts ! 1 \<in> set (inheritedMembers (parts ! 0))
          else parts ! 1 \<in> set objectPrototypeMembers))"

text \<open>
  The table names with at least three segments whose year or month segment is the name of
  a member of \<open>Object.prototype\<close>.
\<close>

definition namesInheritedMember :: "string \<Rightarrow> bool" where
  "namesInheritedMember table =
     (let parts = split (CHR ''_'') table
      in length parts \<ge> 3 \<and>
         (parts ! 0 \<in> set objectPrototypeMembers \<or> parts ! 1 \<in> set objectPrototypeMembers))"

text \<open>
  A consistent comparison function in the sense of ECMA-262 (the requirement under which
  \<open>Array.prototype.sort\<close> is specified), on strings: the sign of \<open>cmp a b\<close> is opposite to
  that of \<open>cmp b a\<close>, and "not after" is transitive.
\<close>

definition consistentComparator :: "(string \<Rightarrow> string \<Rightarrow> int) \<Rightarrow> bool" where
  "consistentComparator cmp \<longleftrightarrow>
     (\<forall>a b. cmp a b < 0 \<longleftrightarrow> cmp b a > 0) \<and>
     (\<forall>a b c. cmp a b \<le> 0 \<and> cmp b c \<le> 0 \<longrightarrow> cmp a c \<le> 0)"

text \<open>
  The order of two categories in a list that is sorted by the collation with \<open>Other\<close>
  last: the first is not \<open>Other\<close>, and the second is \<open>Other\<close> or not before the first.
\<close>

definition otherLast :: "(string \<Rightarrow> string \<Rightarrow> int) \<Rightarrow> string \<Rightarrow> string \<Rightarrow> bool" where
  "otherLast cmp a b \<longleftrightarrow> a \<noteq> ''Other'' \<and> (b = ''Other'' \<or> cmp a b \<le> 0)"

section \<open>The specification's wording\<close>

text \<open>
  The specification speaks of a "strict non-negative-integer test" on a segment, where
  the source tests \<open>!isNaN(Number(segment))\<close>.  The two definitions below follow the
  specification's words (a segment is a non-empty string of decimal digits; a name is
  dated when it has at least three segments and the first three pass the test); they are
  here only to be compared with \<open>parseTableName\<close>, which is translated from the source.
\<close>

definition specStrictNonNegativeInteger :: "string \<Rightarrow> bool" where
  "specStrictNonNegativeInteger s = isDecimalDigits s"

definition specDated :: "string \<Rightarrow> bool" where
  "specDated table =
     (let parts = split (CHR ''_'') table
      in length parts \<ge> 3 \<and> specStrictNonNegativeInteger (parts ! 0) \<and>
         specStrictNonNegativeInteger (parts ! 1) \<and> specStrictNonNegativeInteger (parts ! 2))"

section \<open>Facts about the string functions\<close>

lemmas number_defs =
  numberIsNaN_def trim_def trimStart_def trimEnd_def isWhiteSpace_def isStrNumericLiteral_def
  isStrUnsignedDecimalLiteral_def isDecimalDigit_def isDecimalDigits_def

lemma digit_not_space: "isDecimalDigit c \<Longrightarrow> \<not> isWhiteSpace c"
  by (auto simp: isDecimalDigit_def isWhiteSpace_def)

lemma trim_digits: "isDecimalDigits s \<Longrightarrow> trim s = s"
proof -
  assume d: "isDecimalDigits s"
  then obtain c cs where s: "s = c # cs" by (cases s) (auto simp: isDecimalDigits_def)
  from d s have "\<not> isWhiteSpace c" by (simp add: isDecimalDigits_def digit_not_space)
  then have a: "trimStart s = s" by (simp add: trimStart_def s)
  from d have "s \<noteq> []" "isDecimalDigit (last s)"
    by (auto simp: isDecimalDigits_def list_all_iff)
  then have "\<not> isWhiteSpace (hd (rev s))" by (simp add: hd_rev digit_not_space)
  with \<open>s \<noteq> []\<close> have "dropWhile isWhiteSpace (rev s) = rev s"
    by (cases "rev s") auto
  then show ?thesis by (simp add: trim_def a trimEnd_def)
qed

lemma digits_numeric: "isDecimalDigits s \<Longrightarrow> isStrNumericLiteral s"
proof -
  assume d: "isDecimalDigits s"
  then obtain c cs where s: "s = c # cs" by (cases s) (auto simp: isDecimalDigits_def)
  from d s have c: "isDecimalDigit c" by (simp add: isDecimalDigits_def)
  then have ns: "c \<noteq> CHR ''+''" "c \<noteq> CHR ''-''" by (auto simp: isDecimalDigit_def)
  from d have "\<forall>x\<in>set s. isDecimalDigit x" by (simp add: isDecimalDigits_def list_all_iff)
  then have tw: "takeWhile isDecimalDigit s = s" and dw: "dropWhile isDecimalDigit s = []"
    by auto
  have "isStrUnsignedDecimalLiteral s"
    using d by (simp add: isStrUnsignedDecimalLiteral_def isDecimalDigits_def tw dw)
  then show ?thesis using ns by (simp add: isStrNumericLiteral_def s)
qed

text \<open>A string of decimal digits is never \<open>NaN\<close> under \<open>Number\<close>.\<close>

lemma digits_not_NaN: "isDecimalDigits s \<Longrightarrow> \<not> numberIsNaN s"
  by (simp add: numberIsNaN_def trim_digits digits_numeric)

section \<open>Table name classification\<close>

text \<open>
  C1, as stated, fails: the test on the first three segments is \<open>!isNaN(Number(segment))\<close>,
  not a strict non-negative-integer test.  The name \<open>-1_2_3_x\<close> gets the year \<open>-1\<close>,
  although its first segment is not a string of digits.
\<close>

theorem parseTableName_not_strict:
  "year (parseTableName ''-1_2_3_x'') = Some ''-1'' \<and> \<not> specDated ''-1_2_3_x''"
  by (simp add: parseTableName_def specDated_def specStrictNonNegativeInteger_def number_defs)

text \<open>
  C1, amended.  For every table name, \<open>parseTableName\<close> returns the date fields if and only
  if the name splits on underscore into at least three segments and \<open>Number\<close> reads each of
  the first three as a number (not \<open>NaN\<close>); then year, month and day are the segments 0 to 2
  verbatim and type is the remaining segments joined with underscore (the empty string if
  none remain); otherwise the result carries only the name.  Every name that passes the
  strict digit test of the specification is among those that get the date fields.
\<close>

theorem parseTableName_dated:
  "(let parts = split (CHR ''_'') table
    in if length parts \<ge> 3 \<and> \<not> numberIsNaN (parts ! 0) \<and> \<not> numberIsNaN (parts ! 1) \<and>
          \<not> numberIsNaN (parts ! 2)
       then parseTableName table =
              \<lparr>name = table, year = Some (parts ! 0), month = Some (parts ! 1),
               day = Some (parts ! 2), type = Some (join ''_'' (drop 3 parts))\<rparr>
       else parseTableName table =
              \<lparr>name = table, year = None, month = None, day = None, type = None\<rparr>)
   \<and> (specDated table \<longrightarrow> year (parseTableName table) \<noteq> None)"
  using digits_not_NaN
  by (auto simp: parseTableName_def Let_def specDated_def specStrictNonNegativeInteger_def)

theorem parseTableName_dated_witness:
  "parseTableName ''2024_03_15_sales'' =
     \<lparr>name = ''2024_03_15_sales'', year = Some ''2024'', month = Some ''03'',
      day = Some ''15'', type = Some ''sales''\<rparr>
   \<and> parseTableName ''2024_13_01'' =
     \<lparr>name = ''2024_13_01'', year = Some ''2024'', month = Some ''13'',
      day = Some ''01'', type = Some []\<rparr>
   \<and> parseTableName ''random_table'' =
     \<lparr>name = ''random_table'', year = None, month = None, day = None, type = None\<rparr>
   \<and> specDated ''2024_03_15_sales''"
  using parseTableName_dated [of "''2024_03_15_sales''"]
    parseTableName_dated [of "''2024_13_01''"] parseTableName_dated [of "''random_table''"]
  by (simp add: specDated_def specStrictNonNegativeInteger_def number_defs)

section \<open>The compiled query text\<close>

lemmas render_defs =
  updateQueryFromState_def selectText_def joinsText_def whereText_def groupByText_def
  orderByText_def limitText_def selectedFieldText_def fieldRef_def fieldAlias_def newline_def
  initialState_def newField_def

lemmas show_defs = showInt_def showNat.simps digitChar_def

text \<open>
  C7.  For every state whose \<open>selectedFields\<close> list is empty, the compiled text is the
  empty string, whatever the other fields of the state, the captured \<open>distinct\<close> flag and
  \<open>autoAlias\<close> are; no exception is raised and \<open>onStateChange\<close> is not called.
\<close>

theorem updateQueryFromState_empty:
  "selectedFields newState = [] \<Longrightarrow>
   updateQueryFromState stateDistinct autoAlias newState = ([], None)"
  by (simp add: updateQueryFromState_def)

theorem updateQueryFromState_empty_witness:
  "updateQueryFromState True True
     (initialState\<lparr>limit := Some (SafeInt 10), offset := Some (SafeInt 5),
        distinctFlag := True,
        groupBy := Some \<lparr>groupFields = [''g''], having = None\<rparr>,
        orderBy := Some [\<lparr>orderField = ''o'', direction = DESC\<rparr>]\<rparr>) = ([], None)"
  using updateQueryFromState_empty
    [of "initialState\<lparr>limit := Some (SafeInt 10), offset := Some (SafeInt 5),
        distinctFlag := True,
           groupBy := Some \<lparr>groupFields = [''g''], having = None\<rparr>,
           orderBy := Some [\<lparr>orderField = ''o'', direction = DESC\<rparr>]\<rparr>" True True]
  by (simp add: initialState_def)

text \<open>
  C6 does not hold of the code.  The block "Add limit and offset if present" is guarded
  by \<open>if (newState.limit)\<close>, which is false for the number \<open>0\<close>: a state with one selected
  field and \<open>limit: 0\<close> has its limit set, and the compiled text has no \<open>LIMIT\<close> clause.
\<close>

theorem limit_zero_no_clause:
  "limit (initialState\<lparr>selectedFields := [newField ''id''], limit := Some (SafeInt 0)\<rparr>)
     = Some (SafeInt 0) \<and>
   fst (updateQueryFromState False True
          (initialState\<lparr>selectedFields := [newField ''id''], limit := Some (SafeInt 0)\<rparr>))
     = ''SELECT\<newline>  id AS id_main\<newline>FROM ${TABLE}'' \<and>
   \<not> stringIncludes
        (fst (updateQueryFromState False True
                (initialState\<lparr>selectedFields := [newField ''id''],
                   limit := Some (SafeInt 0)\<rparr>)))
        ''LIMIT''"
  by (simp add: render_defs startsWith_def)

text \<open>
  The other half of C6 holds of the code: the \<open>OFFSET\<close> block is inside the \<open>LIMIT\<close> block,
  so with limit unset the text is that of the same state without offset, and with a limit
  that the guard accepts the \<open>LIMIT\<close> clause is appended to the text of the state without
  limit and offset.
\<close>

lemma offset_needs_limit:
  "selectedFields st \<noteq> [] \<Longrightarrow> limit st = None \<Longrightarrow>
   fst (updateQueryFromState d a st) = fst (updateQueryFromState d a (st\<lparr>offset := None\<rparr>))"
  by (simp add: updateQueryFromState_def limitText_def)

lemma limit_clause_appended:
  "selectedFields st \<noteq> [] \<Longrightarrow> limit st = Some l \<Longrightarrow> numberTruthy l \<Longrightarrow>
   fst (updateQueryFromState d a st) =
     fst (updateQueryFromState d a (st\<lparr>limit := None, offset := None\<rparr>)) @
     newline @ ''LIMIT '' @ numberText l @
     (case offset st of
        None \<Rightarrow> []
      | Some off \<Rightarrow> if numberTruthy off then newline @ ''OFFSET '' @ numberText off else [])"
  by (simp add: updateQueryFromState_def limitText_def)

lemma limit_clause_example:
  "fst (updateQueryFromState False True
          (initialState\<lparr>selectedFields := [newField ''id''], limit := Some (SafeInt 10),
             offset := Some (SafeInt 25)\<rparr>))
     = ''SELECT\<newline>  id AS id_main\<newline>FROM ${TABLE}\<newline>LIMIT 10\<newline>OFFSET 25'' \<and>
   fst (updateQueryFromState False True
          (initialState\<lparr>selectedFields := [newField ''id''], offset := Some (SafeInt 25)\<rparr>))
     = ''SELECT\<newline>  id AS id_main\<newline>FROM ${TABLE}''"
  by (simp add: render_defs show_defs)

text \<open>
  C8, as stated, fails: the aliases are not always distinct.  Two fields with different
  names and no table alias, the first with the own alias \<open>b_main\<close> and the second named
  \<open>b\<close>, are both rendered \<open>AS b_main\<close>.
\<close>

theorem alias_collision:
  "map fieldAlias [(newField ''a'')\<lparr>ownAlias := Some ''b_main''\<rparr>, newField ''b'']
     = [''b_main'', ''b_main''] \<and>
   distinct (map fieldName [(newField ''a'')\<lparr>ownAlias := Some ''b_main''\<rparr>, newField ''b'']) \<and>
   fst (updateQueryFromState False True
          (initialState\<lparr>selectedFields :=
             [(newField ''a'')\<lparr>ownAlias := Some ''b_main''\<rparr>, newField ''b'']\<rparr>))
     = ''SELECT\<newline>  a AS b_main,\<newline>  b AS b_main\<newline>FROM ${TABLE}''"
  by (simp add: render_defs)

lemma fieldAlias_synth:
  "\<not> truthy (ownAlias f) \<Longrightarrow> fieldAlias f = fieldName f @ ''_'' @ orElse (tableAlias f) ''main''"
  by (cases "ownAlias f") (auto simp: fieldAlias_def)

lemma distinct_synth:
  assumes "\<forall>f\<in>set fs. \<not> truthy (ownAlias f) \<and> orElse (tableAlias f) ''main'' = t"
    and "distinct (map fieldName fs)"
  shows "distinct (map fieldAlias fs)"
proof -
  have "map fieldAlias fs = map (\<lambda>n. n @ ''_'' @ t) (map fieldName fs)"
    using assms(1) by (induction fs) (auto simp: fieldAlias_synth)
  moreover have "inj (\<lambda>n. n @ ''_'' @ t)" by (simp add: inj_on_def)
  then have "inj_on (\<lambda>n. n @ ''_'' @ t) (set (map fieldName fs))"
    by (rule inj_on_subset) simp
  ultimately show ?thesis using assms(2) by (simp only: distinct_map)
qed

lemma selectedFieldText_True:
  "selectedFieldText True = (\<lambda>f. fieldRef f @ '' AS '' @ fieldAlias f)"
  by (rule ext) (simp add: selectedFieldText_def)

text \<open>
  C8, amended.  When \<open>autoAlias\<close> is enabled, every selected field is rendered, in list
  order, as its field reference followed by \<open>AS alias\<close>, where the alias is the field's own
  alias if that is present and not empty, and otherwise \<open>fieldName_tableAlias\<close>, with \<open>main\<close>
  in place of a missing or empty table alias.  The aliases are pairwise distinct whenever
  no field has an own alias, the field names are pairwise distinct and all fields have the
  same table alias (as when none has one: no join context).
\<close>

theorem autoAlias_rendering:
  "(selectedFields st \<noteq> [] \<longrightarrow>
      (\<exists>rest. fst (updateQueryFromState d True st) =
         ''SELECT'' @ (if d then '' DISTINCT'' else []) @ newline @ ''  '' @
         join ('','' @ newline @ ''  '')
           (map (\<lambda>f. fieldRef f @ '' AS '' @ fieldAlias f) (selectedFields st)) @
         newline @ ''FROM ${TABLE}'' @ rest))
   \<and> fieldAlias f =
       (if truthy (ownAlias f) then orElse (ownAlias f) []
        else fieldName f @ ''_'' @
             (if truthy (tableAlias f) then orElse (tableAlias f) [] else ''main''))
   \<and> ((\<forall>f\<in>set fs. \<not> truthy (ownAlias f) \<and> orElse (tableAlias f) ''main'' = t) \<and>
       distinct (map fieldName fs) \<longrightarrow> distinct (map fieldAlias fs))"
proof (intro conjI impI)
  assume "selectedFields st \<noteq> []"
  then show "\<exists>rest. fst (updateQueryFromState d True st) =
         ''SELECT'' @ (if d then '' DISTINCT'' else []) @ newline @ ''  '' @
         join ('','' @ newline @ ''  '')
           (map (\<lambda>f. fieldRef f @ '' AS '' @ fieldAlias f) (selectedFields st)) @
         newline @ ''FROM ${TABLE}'' @ rest"
    by (intro exI [of _ "joinsText (joins st) @ whereText (whereClause st) @
          groupByText (groupBy st) @ orderByText (orderBy st) @
          limitText (limit st) (offset st)"])
       (simp add: updateQueryFromState_def selectText_def selectedFieldText_True)
next
  show "fieldAlias f =
       (if truthy (ownAlias f) then orElse (ownAlias f) []
        else fieldName f @ ''_'' @
             (if truthy (tableAlias f) then orElse (tableAlias f) [] else ''main''))"
    by (cases "ownAlias f"; cases "tableAlias f") (auto simp: fieldAlias_def)
next
  assume "(\<forall>f\<in>set fs. \<not> truthy (ownAlias f) \<and> orElse (tableAlias f) ''main'' = t) \<and>
       distinct (map fieldName fs)"
  then show "distinct (map fieldAlias fs)" using distinct_synth by blast
qed

theorem autoAlias_rendering_witness:
  "fst (updateQueryFromState False True
          (initialState\<lparr>selectedFields :=
             [newField ''id'', (newField ''n'')\<lparr>tableAlias := Some ''u''\<rparr>,
              (newField ''x'')\<lparr>ownAlias := Some ''y''\<rparr>]\<rparr>))
     = ''SELECT\<newline>  id AS id_main,\<newline>  u.n AS n_u,\<newline>  x AS y\<newline>FROM ${TABLE}'' \<and>
   fieldAlias ((newField ''n'')\<lparr>tableAlias := Some ''u''\<rparr>) = ''n_u'' \<and>
   distinct (map fieldAlias [newField ''id'', newField ''n''])"
  using autoAlias_rendering
    [of "initialState\<lparr>selectedFields :=
             [newField ''id'', (newField ''n'')\<lparr>tableAlias := Some ''u''\<rparr>,
              (newField ''x'')\<lparr>ownAlias := Some ''y''\<rparr>]\<rparr>" False
        "(newField ''n'')\<lparr>tableAlias := Some ''u''\<rparr>" "[newField ''id'', newField ''n'']"
        "''main''"]
  by (simp add: render_defs)

text \<open>
  C3 does not hold of the code: \<open>updateQueryFromState\<close> reads \<open>state.distinct\<close> of the
  render that created it, not \<open>newState.distinct\<close>.  The handler of the Distinct switch
  builds \<open>newState\<close> with the new flag and compiles it with the old one: for every state
  with a selected field, the text starts with \<open>SELECT DISTINCT\<close> if and only if the flag
  was set before the change, whatever the new value \<open>checked\<close> is.
\<close>

theorem onDistinctChange_stale:
  "selectedFields state \<noteq> [] \<Longrightarrow>
   distinctFlag (fst (onDistinctChange state autoAlias checked)) = checked \<and>
   (startsWith (fst (snd (onDistinctChange state autoAlias checked))) ''SELECT DISTINCT''
      \<longleftrightarrow> distinctFlag state)"
  by (simp add: onDistinctChange_def updateQueryFromState_def selectText_def startsWith_def
      newline_def Let_def)

theorem onDistinctChange_stale_witness:
  "onDistinctChange (initialState\<lparr>selectedFields := [newField ''id'']\<rparr>) True True =
     (initialState\<lparr>selectedFields := [newField ''id''], distinctFlag := True\<rparr>,
      ''SELECT\<newline>  id AS id_main\<newline>FROM ${TABLE}'',
      Some (initialState\<lparr>selectedFields := [newField ''id''], distinctFlag := True\<rparr>))"
  using onDistinctChange_stale [of "initialState\<lparr>selectedFields := [newField ''id'']\<rparr>" True True]
  by (simp add: onDistinctChange_def render_defs Let_def)

text \<open>
  The other handlers leave the flag as it is, so there the captured flag is that of the
  state they compile: the text of \<open>handleFieldSelect\<close> starts with \<open>SELECT DISTINCT\<close> if
  and only if the compiled state has the flag set.
\<close>

lemma handleFieldSelect_distinct:
  "startsWith (fst (snd (handleFieldSelect state autoAlias field))) ''SELECT DISTINCT''
     \<longleftrightarrow> distinctFlag (fst (handleFieldSelect state autoAlias field))"
  by (simp add: handleFieldSelect_def updateQueryFromState_def selectText_def startsWith_def
      newline_def Let_def)

section \<open>Inserting a field into the query text\<close>

text \<open>What \<open>startsWith\<close>, \<open>endsWith\<close>, \<open>includes\<close> and \<open>trim\<close> mean for the text.\<close>

lemma startsWith_iff: "startsWith s p \<longleftrightarrow> (\<exists>b. s = p @ b)"
proof
  assume "startsWith s p"
  then have "s = p @ drop (length p) s"
    by (metis startsWith_def append_take_drop_id)
  then show "\<exists>b. s = p @ b" ..
next
  assume "\<exists>b. s = p @ b"
  then show "startsWith s p" by (auto simp: startsWith_def)
qed

lemma endsWith_iff: "endsWith s p \<longleftrightarrow> (\<exists>a. s = a @ p)"
proof
  assume e: "endsWith s p"
  then have "s = take (length s - length p) s @ p"
    by (metis endsWith_def append_take_drop_id)
  then show "\<exists>a. s = a @ p" ..
next
  assume "\<exists>a. s = a @ p"
  then show "endsWith s p" by (auto simp: endsWith_def)
qed

lemma stringIncludes_iff: "stringIncludes s p \<longleftrightarrow> (\<exists>a b. s = a @ p @ b)"
proof (induction s)
  case Nil
  then show ?case by auto
next
  case (Cons c cs)
  show ?case
  proof
    assume "stringIncludes (c # cs) p"
    then consider "startsWith (c # cs) p" | "stringIncludes cs p" by auto
    then show "\<exists>a b. c # cs = a @ p @ b"
    proof cases
      case 1
      then obtain b where "c # cs = p @ b" by (auto simp: startsWith_iff)
      then have "c # cs = [] @ p @ b" by simp
      then show ?thesis by blast
    next
      case 2
      then obtain a b where "cs = a @ p @ b" using Cons.IH by auto
      then have "c # cs = (c # a) @ p @ b" by simp
      then show ?thesis by blast
    qed
  next
    assume "\<exists>a b. c # cs = a @ p @ b"
    then obtain a b where ab: "c # cs = a @ p @ b" by auto
    show "stringIncludes (c # cs) p"
    proof (cases a)
      case Nil
      with ab have "startsWith (c # cs) p" by (auto simp: startsWith_iff)
      then show ?thesis by simp
    next
      case (Cons x xs)
      with ab have "cs = xs @ p @ b" by simp
      then have "stringIncludes cs p" using Cons.IH by auto
      then show ?thesis by simp
    qed
  qed
qed

lemma trim_substring: "\<exists>a b. s = a @ trim s @ b"
proof -
  have 1: "s = takeWhile isWhiteSpace s @ trimStart s"
    by (simp add: trimStart_def)
  have "rev (trimStart s) = takeWhile isWhiteSpace (rev (trimStart s)) @ rev (trim s)"
    by (simp add: trim_def trimEnd_def)
  then have "trimStart s = trim s @ rev (takeWhile isWhiteSpace (rev (trimStart s)))"
    by (metis rev_append rev_rev_ident)
  with 1 show ?thesis by metis
qed

lemma endsWith_trim_includes:
  assumes "endsWith (trim s) p"
  shows "stringIncludes s p"
proof -
  from assms obtain x where x: "trim s = x @ p" by (auto simp: endsWith_iff)
  obtain a b where "s = a @ trim s @ b" using trim_substring by blast
  with x have "s = (a @ x) @ p @ b" by simp
  then show ?thesis unfolding stringIncludes_iff by blast
qed

text \<open>
  C4.  With \<open>prefix\<close> the backtick-quoted \<open>dataset.table\<close> when both are known (present and
  not empty) and the empty string otherwise, \<open>insertFieldIntoQuery\<close> follows the decision
  table: an empty query gives \<open>SELECT prefix.field\<close>; a non-empty query whose lower-cased
  text does not contain \<open>select\<close> gives \<open>SELECT prefix.field\<close>; a query that contains it
  and whose lower-cased, trimmed text does not end with it gets \<open>,\<newline>  prefix.field\<close>
  appended; a query whose lower-cased, trimmed text ends with it gets \<open> prefix.field\<close>
  appended.  On the empty query, the field \<open>id\<close>, dataset \<open>d\<close> and table \<open>t\<close> the result is
  \<open>SELECT `d.t`.id\<close>.
\<close>

theorem insertField_decision_table:
  "(query = [] \<longrightarrow>
      insertFieldIntoQuery query dataset table field
        = ''SELECT '' @ qualifierPrefix dataset table @ ''.'' @ field)
   \<and> (query \<noteq> [] \<and> \<not> stringIncludes (toLowerCase query) ''select'' \<longrightarrow>
      insertFieldIntoQuery query dataset table field
        = ''SELECT '' @ qualifierPrefix dataset table @ ''.'' @ field)
   \<and> (query \<noteq> [] \<and> stringIncludes (toLowerCase query) ''select'' \<and>
        \<not> endsWith (trim (toLowerCase query)) ''select'' \<longrightarrow>
      insertFieldIntoQuery query dataset table field
        = query @ '','' @ newline @ ''  '' @ qualifierPrefix dataset table @ ''.'' @ field)
   \<and> (endsWith (trim (toLowerCase query)) ''select'' \<longrightarrow>
      insertFieldIntoQuery query dataset table field
        = query @ '' '' @ qualifierPrefix dataset table @ ''.'' @ field)
   \<and> (d \<noteq> [] \<and> t \<noteq> [] \<longrightarrow>
        qualifierPrefix (Some d) (Some t) = backtick @ d @ ''.'' @ t @ backtick)
   \<and> (\<not> (truthy dataset \<and> truthy table) \<longrightarrow> qualifierPrefix dataset table = [])
   \<and> insertFieldIntoQuery [] (Some ''d'') (Some ''t'') ''id''
        = ''SELECT '' @ backtick @ ''d.t'' @ backtick @ ''.id''"
proof -
  have ends: "endsWith (trim (toLowerCase query)) ''select'' \<Longrightarrow>
      query \<noteq> [] \<and> stringIncludes (toLowerCase query) ''select''"
  proof -
    assume e: "endsWith (trim (toLowerCase query)) ''select''"
    then have i: "stringIncludes (toLowerCase query) ''select''"
      by (rule endsWith_trim_includes)
    then have "toLowerCase query \<noteq> []" by auto
    then show ?thesis using i by (auto simp: toLowerCase_def)
  qed
  show ?thesis
    using ends
    by (auto simp: insertFieldIntoQuery_def qualifierPrefix_def Let_def)
qed

theorem insertField_decision_table_witness:
  "insertFieldIntoQuery [] (Some ''d'') (Some ''t'') ''id''
     = ''SELECT '' @ backtick @ ''d.t'' @ backtick @ ''.id'' \<and>
   insertFieldIntoQuery ''FROM x'' (Some ''d'') (Some ''t'') ''id''
     = ''SELECT '' @ backtick @ ''d.t'' @ backtick @ ''.id'' \<and>
   insertFieldIntoQuery (''SeLeCt '' @ backtick @ ''d.t'' @ backtick @ ''.id'')
       (Some ''d'') (Some ''t'') ''name''
     = ''SeLeCt '' @ backtick @ ''d.t'' @ backtick @ ''.id,\<newline>  '' @ backtick @ ''d.t'' @
       backtick @ ''.name'' \<and>
   insertFieldIntoQuery ''Select  '' (Some ''d'') None ''name'' = ''Select   .name''"
proof -
  have h1: "([]::string) = []"
    by simp
  have h2: "''FROM x'' \<noteq> [] \<and> \<not> stringIncludes (toLowerCase ''FROM x'') ''select''"
    by code_simp
  have h3: "''SeLeCt '' @ backtick @ ''d.t'' @ backtick @ ''.id'' \<noteq> [] \<and>
      stringIncludes (toLowerCase (''SeLeCt '' @ backtick @ ''d.t'' @ backtick @ ''.id''))
        ''select'' \<and>
      \<not> endsWith (trim (toLowerCase (''SeLeCt '' @ backtick @ ''d.t'' @ backtick @ ''.id'')))
          ''select''"
    by code_simp
  have h4: "endsWith (trim (toLowerCase ''Select  '')) ''select''"
    by code_simp
  have p: "qualifierPrefix (Some ''d'') (Some ''t'') = backtick @ ''d.t'' @ backtick"
    "qualifierPrefix (Some ''d'') None = []"
    by (simp_all add: qualifierPrefix_def)
  note c1 = insertField_decision_table
    [of "[]" "Some ''d''" "Some ''t''" "''id''" "''d''" "''t''", THEN conjunct1, THEN mp, OF h1]
  note c2 = insertField_decision_table
    [of "''FROM x''" "Some ''d''" "Some ''t''" "''id''" "''d''" "''t''",
     THEN conjunct2, THEN conjunct1, THEN mp, OF h2]
  note c3 = insertField_decision_table
    [of "''SeLeCt '' @ backtick @ ''d.t'' @ backtick @ ''.id''" "Some ''d''" "Some ''t''"
        "''name''" "''d''" "''t''",
     THEN conjunct2, THEN conjunct2, THEN conjunct1, THEN mp, OF h3]
  note c4 = insertField_decision_table
    [of "''Select  ''" "Some ''d''" "None" "''name''" "''d''" "''t''",
     THEN conjunct2, THEN conjunct2, THEN conjunct2, THEN conjunct1, THEN mp, OF h4]
  show ?thesis
    using c1 c2 c3 c4 by (simp add: p newline_def backtick_def)
qed

text \<open>
  C10.  The detection is raw substring matching on the lower-cased text: whenever that text
  can be cut as \<open>a @ select @ b\<close>, whatever surrounds the letters, a non-empty query whose
  trimmed text does not end with them gets \<open>,\<newline>  prefix.field\<close> appended, and a query
  whose trimmed text ends with the letters, whatever precedes them, gets \<open> prefix.field\<close>
  appended; \<open>selection\<close> and \<open>myselect\<close> are the examples.
\<close>

theorem insertField_raw_substring:
  "(query \<noteq> [] \<and> toLowerCase query = a @ ''select'' @ b \<and>
      \<not> endsWith (trim (toLowerCase query)) ''select'' \<longrightarrow>
      insertFieldIntoQuery query dataset table field
        = query @ '','' @ newline @ ''  '' @ qualifierPrefix dataset table @ ''.'' @ field)
   \<and> (trim (toLowerCase query) = a @ ''select'' \<longrightarrow>
      insertFieldIntoQuery query dataset table field
        = query @ '' '' @ qualifierPrefix dataset table @ ''.'' @ field)"
proof (intro conjI impI)
  assume h: "query \<noteq> [] \<and> toLowerCase query = a @ ''select'' @ b \<and>
      \<not> endsWith (trim (toLowerCase query)) ''select''"
  then have q: "query \<noteq> []" and eq: "toLowerCase query = a @ ''select'' @ b"
    and ne: "\<not> endsWith (trim (toLowerCase query)) ''select''"
    by auto
  from eq have inc: "stringIncludes (toLowerCase query) ''select''"
    unfolding stringIncludes_iff by blast
  from q inc ne show "insertFieldIntoQuery query dataset table field
        = query @ '','' @ newline @ ''  '' @ qualifierPrefix dataset table @ ''.'' @ field"
    by (simp add: insertFieldIntoQuery_def Let_def)
next
  assume h: "trim (toLowerCase query) = a @ ''select''"
  then have e: "endsWith (trim (toLowerCase query)) ''select''"
    unfolding endsWith_iff by blast
  then have i: "stringIncludes (toLowerCase query) ''select''"
    by (rule endsWith_trim_includes)
  then have "toLowerCase query \<noteq> []" by auto
  then have "query \<noteq> []" by (auto simp: toLowerCase_def)
  with e i show "insertFieldIntoQuery query dataset table field
        = query @ '' '' @ qualifierPrefix dataset table @ ''.'' @ field"
    by (simp add: insertFieldIntoQuery_def Let_def)
qed


theorem insertField_raw_substring_witness:
  "insertFieldIntoQuery ''selection'' (Some ''d'') (Some ''t'') ''id''
     = ''selection,\<newline>  '' @ backtick @ ''d.t'' @ backtick @ ''.id'' \<and>
   insertFieldIntoQuery ''myselect'' (Some ''d'') (Some ''t'') ''id''
     = ''myselect '' @ backtick @ ''d.t'' @ backtick @ ''.id''"
proof -
  have h1: "''selection'' \<noteq> [] \<and> toLowerCase ''selection'' = [] @ ''select'' @ ''ion'' \<and>
      \<not> endsWith (trim (toLowerCase ''selection'')) ''select''"
    by code_simp
  have h2: "trim (toLowerCase ''myselect'') = ''my'' @ ''select''"
    by code_simp
  have p: "qualifierPrefix (Some ''d'') (Some ''t'') = backtick @ ''d.t'' @ backtick"
    by (simp add: qualifierPrefix_def)
  note c1 = insertField_raw_substring
    [of "''selection''" "[]" "''ion''" "Some ''d''" "Some ''t''" "''id''",
     THEN conjunct1, THEN mp, OF h1]
  note c2 = insertField_raw_substring
    [of "''myselect''" "''my''" _ "Some ''d''" "Some ''t''" "''id''",
     THEN conjunct2, THEN mp, OF h2]
  show ?thesis
    using c1 c2 by (simp add: p newline_def backtick_def)
qed

section \<open>Grouping tables by date\<close>

text \<open>Assignments to a dictionary, and the sort, keep the entries.\<close>

lemma insertNew_set: "set (insertNew k v obj) = insert (k, v) (set obj)"
  by (induction obj) (auto split: if_splits)

lemma update_set:
  "distinct (map fst obj) \<Longrightarrow>
   set (AList.update k v obj) = insert (k, v) {p \<in> set obj. fst p \<noteq> k}"
  by (induction obj) (auto simp: rev_image_eqI)

lemma setProp_set:
  "distinct (map fst obj) \<Longrightarrow>
   set (setProp k v obj) = insert (k, v) {p \<in> set obj. fst p \<noteq> k}"
  by (auto simp: setProp_def getProp_def insertNew_set update_set map_of_eq_None_iff
      split: option.splits)

lemma insertNew_keys: "set (map fst (insertNew k v obj)) = insert k (set (map fst obj))"
  by (simp add: insertNew_set)

lemma insertNew_distinct:
  "distinct (map fst obj) \<Longrightarrow> k \<notin> fst ` set obj \<Longrightarrow> distinct (map fst (insertNew k v obj))"
proof (induction obj)
  case Nil
  then show ?case by simp
next
  case (Cons p ps)
  then show ?case using insertNew_keys [of k v ps] by (cases p) auto
qed

lemma setProp_distinct:
  "distinct (map fst obj) \<Longrightarrow> distinct (map fst (setProp k v obj))"
  by (auto simp: setProp_def getProp_def insertNew_distinct distinct_update map_of_eq_None_iff
      split: option.splits)

lemma getProp_Some: "distinct (map fst obj) \<Longrightarrow> getProp obj k = Some v \<longleftrightarrow> (k, v) \<in> set obj"
  by (simp add: getProp_def)

lemma getProp_None: "getProp obj k = None \<longleftrightarrow> k \<notin> fst ` set obj"
  by (simp add: getProp_def map_of_eq_None_iff)


lemma monthPlaces_new:
  assumes "distinct (map fst ms)" "getProp ms m = None"
  shows "monthPlaces y (setProp m [t] ms) = insert (y, m, t) (monthPlaces y ms)"
proof -
  from assms(2) have "{p \<in> set ms. fst p \<noteq> m} = set ms"
    by (auto simp: getProp_None)
  then show ?thesis using assms(1) by (simp add: monthPlaces_def setProp_set)
qed

lemma monthPlaces_app:
  assumes "distinct (map fst ms)" "getProp ms m = Some ts"
  shows "monthPlaces y (setProp m (ts @ [t]) ms) = insert (y, m, t) (monthPlaces y ms)"
proof -
  from assms have in_ms: "(m, ts) \<in> set ms" by (simp add: getProp_Some)
  then have "set ms = insert (m, ts) {p \<in> set ms. fst p \<noteq> m}"
    using assms(1) by (auto simp: eq_key_imp_eq_value)
  then have "monthPlaces y ms =
      (\<lambda>t. (y, m, t)) ` set ts \<union> (\<Union>(m, ts)\<in>{p \<in> set ms. fst p \<noteq> m}. (\<lambda>t. (y, m, t)) ` set ts)"
    unfolding monthPlaces_def by (metis (no_types, lifting) UN_insert case_prod_conv)
  then show ?thesis using assms(1) by (auto simp: monthPlaces_def setProp_set)
qed

lemma storedPlaces_new:
  assumes "distinct (map fst groups)" "getProp groups y = None"
  shows "storedPlaces (setProp y ms groups) = monthPlaces y ms \<union> storedPlaces groups"
proof -
  from assms(2) have "{p \<in> set groups. fst p \<noteq> y} = set groups"
    by (auto simp: getProp_None)
  then show ?thesis using assms(1) by (simp add: storedPlaces_def setProp_set)
qed

lemma storedPlaces_upd:
  assumes "distinct (map fst groups)" "getProp groups y = Some ms"
    and "monthPlaces y ms' = insert p (monthPlaces y ms)"
  shows "storedPlaces (setProp y ms' groups) = insert p (storedPlaces groups)"
proof -
  from assms have in_g: "(y, ms) \<in> set groups" by (simp add: getProp_Some)
  then have "set groups = insert (y, ms) {p \<in> set groups. fst p \<noteq> y}"
    using assms(1) by (auto simp: eq_key_imp_eq_value)
  then have "storedPlaces groups =
      monthPlaces y ms \<union> (\<Union>(y, ms)\<in>{p \<in> set groups. fst p \<noteq> y}. monthPlaces y ms)"
    unfolding storedPlaces_def by (metis (no_types, lifting) UN_insert case_prod_conv)
  then show ?thesis using assms(1,3) by (auto simp: storedPlaces_def setProp_set)
qed

lemma wellKeyed_setProp:
  assumes "wellKeyed groups" "y \<notin> set objectPrototypeMembers" "distinct (map fst ms)"
    "\<forall>(m, ts)\<in>set ms. m \<notin> set objectPrototypeMembers"
  shows "wellKeyed (setProp y ms groups)"
  using assms by (auto simp: wellKeyed_def setProp_distinct setProp_set)

lemma wellKeyed_months:
  "wellKeyed groups \<Longrightarrow> getProp groups y = Some ms \<Longrightarrow>
   y \<notin> set objectPrototypeMembers \<and> distinct (map fst ms) \<and>
   (\<forall>(m, ts)\<in>set ms. m \<notin> set objectPrototypeMembers)"
  by (auto simp: wellKeyed_def getProp_Some)

lemma addTable_short:
  "length (split (CHR ''_'') t) < 3 \<Longrightarrow> addTable groups t = Inr groups"
  by (simp add: addTable_def)

lemma addTable_throws:
  assumes "wellKeyed groups" "throwsOn t"
  shows "addTable groups t = Inl TypeError"
proof -
  let ?parts = "split (CHR ''_'') t"
  from assms(2) have len: "length ?parts \<ge> 3" by (simp add: throwsOn_def Let_def)
  show ?thesis
  proof (cases "getProp groups (?parts ! 0)")
    case None
    with assms(2) len show ?thesis
      by (auto simp: addTable_def throwsOn_def Let_def split: if_splits)
  next
    case (Some ms)
    with assms(1) have y: "?parts ! 0 \<notin> set objectPrototypeMembers"
      and ms: "\<forall>(m, ts)\<in>set ms. m \<notin> set objectPrototypeMembers"
      using wellKeyed_months by blast+
    with assms(2) have m: "?parts ! 1 \<in> set objectPrototypeMembers"
      by (simp add: throwsOn_def Let_def)
    with ms have "getProp ms (?parts ! 1) = None"
      by (force simp: getProp_None)
    with Some len m show ?thesis by (simp add: addTable_def Let_def)
  qed
qed

lemma addTable_stores:
  assumes "wellKeyed groups" "\<not> throwsOn t"
  shows "\<exists>groups'. addTable groups t = Inr groups' \<and> wellKeyed groups' \<and>
           storedPlaces groups' = storedPlaces groups \<union>
             (if grouped t then {(split (CHR ''_'') t ! 0, split (CHR ''_'') t ! 1, t)} else {})"
proof (cases "length (split (CHR ''_'') t) \<ge> 3")
  case False
  then show ?thesis using assms(1) by (simp add: addTable_short grouped_def)
next
  case len: True
  let ?parts = "split (CHR ''_'') t"
  let ?y = "?parts ! 0" and ?m = "?parts ! 1"
  from assms(1) have dg: "distinct (map fst groups)" by (simp add: wellKeyed_def)
  show ?thesis
  proof (cases "getProp groups ?y")
    case None
    show ?thesis
    proof (cases "?y \<in> set objectPrototypeMembers")
      case True
      with assms(2) len have "?m \<notin> set (inheritedMembers ?y)"
        by (simp add: throwsOn_def Let_def)
      with None True len assms(1) show ?thesis
        by (simp add: addTable_def Let_def grouped_def)
    next
      case False
      with assms(2) len have m: "?m \<notin> set objectPrototypeMembers"
        by (simp add: throwsOn_def Let_def)
      have wk: "wellKeyed (setProp ?y [(?m, [t])] groups)"
        using assms(1) False m by (intro wellKeyed_setProp) auto
      have "storedPlaces (setProp ?y [(?m, [t])] groups) = insert (?y, ?m, t) (storedPlaces groups)"
        using dg None by (simp add: storedPlaces_new monthPlaces_def)
      with None False m len wk show ?thesis
        by (simp add: addTable_def Let_def grouped_def)
    qed
  next
    case (Some ms)
    with assms(1) have y: "?y \<notin> set objectPrototypeMembers"
      and dms: "distinct (map fst ms)"
      and kms: "\<forall>(m, ts)\<in>set ms. m \<notin> set objectPrototypeMembers"
      using wellKeyed_months by blast+
    from y assms(2) len have m: "?m \<notin> set objectPrototypeMembers"
      by (simp add: throwsOn_def Let_def)
    show ?thesis
    proof (cases "getProp ms ?m")
      case None
      let ?ms' = "setProp ?m [t] ms"
      have "wellKeyed (setProp ?y ?ms' groups)"
        using assms(1) y dms kms m
        by (intro wellKeyed_setProp) (auto simp: setProp_distinct setProp_set)
      moreover have "storedPlaces (setProp ?y ?ms' groups) = insert (?y, ?m, t) (storedPlaces groups)"
        using dg Some dms None by (intro storedPlaces_upd) (auto simp: monthPlaces_new)
      ultimately show ?thesis using Some None m y len
        by (simp add: addTable_def Let_def grouped_def)
    next
      case (Some ts)
      let ?ms' = "setProp ?m (ts @ [t]) ms"
      have "wellKeyed (setProp ?y ?ms' groups)"
        using assms(1) y dms kms m
        by (intro wellKeyed_setProp) (auto simp: setProp_distinct setProp_set)
      moreover have "storedPlaces (setProp ?y ?ms' groups) = insert (?y, ?m, t) (storedPlaces groups)"
        using dg \<open>getProp groups ?y = Some ms\<close> dms Some
        by (intro storedPlaces_upd) (auto simp: monthPlaces_app)
      ultimately show ?thesis using \<open>getProp groups ?y = Some ms\<close> Some y len
        by (simp add: addTable_def Let_def grouped_def)
    qed
  qed
qed

lemma forEachTable_throws:
  "wellKeyed groups \<Longrightarrow> \<exists>t\<in>set ts. throwsOn t \<Longrightarrow> forEachTable groups ts = Inl TypeError"
proof (induction ts arbitrary: groups)
  case Nil
  then show ?case by simp
next
  case (Cons t ts)
  show ?case
  proof (cases "throwsOn t")
    case True
    then show ?thesis using Cons.prems(1) by (simp add: addTable_throws)
  next
    case False
    then obtain groups' where g: "addTable groups t = Inr groups'" "wellKeyed groups'"
      using addTable_stores [OF Cons.prems(1)] by blast
    from False Cons.prems(2) have "\<exists>t\<in>set ts. throwsOn t" by auto
    then show ?thesis using g Cons.IH by simp
  qed
qed

lemma forEachTable_stores:
  "wellKeyed groups \<Longrightarrow> \<forall>t\<in>set ts. \<not> throwsOn t \<Longrightarrow>
   \<exists>groups'. forEachTable groups ts = Inr groups' \<and> wellKeyed groups' \<and>
     storedPlaces groups' = storedPlaces groups \<union>
       {(split (CHR ''_'') t ! 0, split (CHR ''_'') t ! 1, t) | t. t \<in> set ts \<and> grouped t}"
proof (induction ts arbitrary: groups)
  case Nil
  then show ?case by simp
next
  case (Cons t ts)
  then obtain g1 where g1: "addTable groups t = Inr g1" "wellKeyed g1"
    "storedPlaces g1 = storedPlaces groups \<union>
       (if grouped t then {(split (CHR ''_'') t ! 0, split (CHR ''_'') t ! 1, t)} else {})"
    using addTable_stores [of groups t] by auto
  from Cons.prems(2) have "\<forall>t\<in>set ts. \<not> throwsOn t" by simp
  then obtain g2 where g2: "forEachTable g1 ts = Inr g2" "wellKeyed g2"
    "storedPlaces g2 = storedPlaces g1 \<union>
       {(split (CHR ''_'') t ! 0, split (CHR ''_'') t ! 1, t) | t. t \<in> set ts \<and> grouped t}"
    using Cons.IH [OF g1(2)] by blast
  from g1 g2 show ?case by auto
qed

lemma insertBy_set: "set (insertBy c x ys) = insert x (set ys)"
  by (induction ys) auto

lemma sortBy_set: "set (sortBy c xs) = set xs"
  by (induction xs) (auto simp: sortBy_def insertBy_set)

lemma insertBy_keys:
  "distinct (map fst (insertBy c x ys)) \<longleftrightarrow> fst x \<notin> fst ` set ys \<and> distinct (map fst ys)"
  by (induction ys) (auto simp: insertBy_set)

lemma sortBy_keys: "distinct (map fst (sortBy c xs)) \<longleftrightarrow> distinct (map fst xs)"
  by (induction xs) (auto simp: sortBy_def insertBy_keys sortBy_set [unfolded sortBy_def])

lemma fromEntries_fold:
  "distinct (map fst acc) \<Longrightarrow> distinct (map fst es) \<Longrightarrow> fst ` set acc \<inter> fst ` set es = {} \<Longrightarrow>
   set (foldl (\<lambda>obj (k, v). setProp k v obj) acc es) = set acc \<union> set es"
proof (induction es arbitrary: acc)
  case Nil
  then show ?case by simp
next
  case (Cons e es)
  obtain k v where e: "e = (k, v)" by (cases e)
  from Cons.prems e have k: "k \<notin> fst ` set acc" by auto
  then have s1: "set (setProp k v acc) = insert (k, v) (set acc)"
    using Cons.prems(1) by (auto simp: setProp_set)
  have d1: "distinct (map fst (setProp k v acc))"
    using Cons.prems(1) by (rule setProp_distinct)
  have "fst ` set (setProp k v acc) \<inter> fst ` set es = {}"
    using Cons.prems(2,3) e s1 by auto
  with Cons.IH [OF d1] Cons.prems(2) s1 e show ?case by auto
qed

lemma fromEntries_set:
  "distinct (map fst es) \<Longrightarrow> set (Object_fromEntries es) = set es"
  using fromEntries_fold [of "[]" es] by (simp add: Object_fromEntries_def)

lemma placements_set:
  "set (placements gs) = (\<Union>g\<in>set gs. monthPlaces (groupYear g) (months g))"
  by (simp add: placements_def monthPlaces_def Object_entries_def case_prod_beta)

lemma groupedTables_placements:
  "set (groupedTables gs) = (\<lambda>p. snd (snd p)) ` set (placements gs)"
  by (simp add: groupedTables_def placements_def Object_entries_def case_prod_beta image_UN
      image_image)

lemma sorted_months_places:
  "distinct (map fst ms) \<Longrightarrow>
   monthPlaces y (Object_fromEntries (sortBy monthCompare (Object_entries ms))) = monthPlaces y ms"
  by (simp add: monthPlaces_def fromEntries_set sortBy_keys sortBy_set Object_entries_def)

lemma groupTablesByDate_places:
  assumes "wellKeyed groups"
  shows "set (placements
           (map (\<lambda>(y, ms). \<lparr>groupYear = y,
                   months = Object_fromEntries (sortBy monthCompare (Object_entries ms))\<rparr>)
              (sortBy c (Object_entries groups)))) = storedPlaces groups"
proof -
  have "\<And>y ms. (y, ms) \<in> set groups \<Longrightarrow>
      monthPlaces y (Object_fromEntries (sortBy monthCompare (Object_entries ms)))
        = monthPlaces y ms"
    using assms by (intro sorted_months_places) (auto simp: wellKeyed_def)
  then show ?thesis
    by (auto simp: placements_set storedPlaces_def sortBy_set Object_entries_def)
qed

lemma wellKeyed_empty: "wellKeyed []"
  by (simp add: wellKeyed_def)

lemma storedPlaces_empty: "storedPlaces [] = {}"
  by (simp add: storedPlaces_def)

lemma not_inherited_grouped:
  "\<not> namesInheritedMember t \<Longrightarrow>
   \<not> throwsOn t \<and> (grouped t \<longleftrightarrow> length (split (CHR ''_'') t) \<ge> 3)"
  by (auto simp: namesInheritedMember_def throwsOn_def grouped_def Let_def)

text \<open>
  C2, as stated, fails: \<open>groupTablesByDate\<close> does not classify, it only counts segments.
  The name \<open>foo_bar_baz\<close> appears in the output, under the year \<open>foo\<close> and the month \<open>bar\<close>,
  while \<open>parseTableName\<close> resolves neither a year nor a month for it.
\<close>

theorem ungrouped_name_is_grouped:
  "groupTablesByDate codeUnitCompare (Some [''foo_bar_baz''])
     = Inr [\<lparr>groupYear = ''foo'', months = [(''bar'', [''foo_bar_baz''])]\<rparr>] \<and>
   groupedTables [\<lparr>groupYear = ''foo'', months = [(''bar'', [''foo_bar_baz''])]\<rparr>]
     = [''foo_bar_baz''] \<and>
   year (parseTableName ''foo_bar_baz'') = None \<and>
   month (parseTableName ''foo_bar_baz'') = None"
  by code_simp

text \<open>
  C2, amended.  For every list of table names of which no year or month segment is the
  name of a member of \<open>Object.prototype\<close>, \<open>groupTablesByDate\<close> returns, and a table appears
  in its output if and only if it is in the list and its name splits on underscore into
  at least three segments; it appears under the year that is its segment 0 and the month
  that is its segment 1, verbatim, and nowhere else.  No numeric test is applied to the
  segments, and the names with fewer than three segments are left out.
\<close>

theorem groupTablesByDate_members:
  "\<forall>t\<in>set tables. \<not> namesInheritedMember t \<Longrightarrow>
   \<exists>gs. groupTablesByDate localeCompare (Some tables) = Inr gs \<and>
     (\<forall>t. t \<in> set (groupedTables gs) \<longleftrightarrow>
        t \<in> set tables \<and> length (split (CHR ''_'') t) \<ge> 3) \<and>
     (\<forall>y m t. (y, m, t) \<in> set (placements gs) \<longleftrightarrow>
        t \<in> set tables \<and> length (split (CHR ''_'') t) \<ge> 3 \<and>
        y = split (CHR ''_'') t ! 0 \<and> m = split (CHR ''_'') t ! 1)"
proof -
  assume h: "\<forall>t\<in>set tables. \<not> namesInheritedMember t"
  then have nt: "\<forall>t\<in>set tables. \<not> throwsOn t"
    and gr: "\<And>t. t \<in> set tables \<Longrightarrow> grouped t \<longleftrightarrow> length (split (CHR ''_'') t) \<ge> 3"
    using not_inherited_grouped by blast+
  obtain groups where g: "forEachTable [] tables = Inr groups" "wellKeyed groups"
    "storedPlaces groups =
       {(split (CHR ''_'') t ! 0, split (CHR ''_'') t ! 1, t) | t. t \<in> set tables \<and> grouped t}"
    using forEachTable_stores [OF wellKeyed_empty nt] by (auto simp: storedPlaces_empty)
  let ?gs = "map (\<lambda>(y, ms). \<lparr>groupYear = y,
                   months = Object_fromEntries (sortBy monthCompare (Object_entries ms))\<rparr>)
              (sortBy (\<lambda>a b. localeCompare (fst b) (fst a)) (Object_entries groups))"
  have r: "groupTablesByDate localeCompare (Some tables) = Inr ?gs"
    using g(1) by (simp add: groupTablesByDate_def)
  have p: "set (placements ?gs) =
       {(split (CHR ''_'') t ! 0, split (CHR ''_'') t ! 1, t) | t.
          t \<in> set tables \<and> length (split (CHR ''_'') t) \<ge> 3}"
    using groupTablesByDate_places [OF g(2)] g(3) gr by auto
  have "\<forall>y m t. (y, m, t) \<in> set (placements ?gs) \<longleftrightarrow>
        t \<in> set tables \<and> length (split (CHR ''_'') t) \<ge> 3 \<and>
        y = split (CHR ''_'') t ! 0 \<and> m = split (CHR ''_'') t ! 1"
    unfolding p by auto
  moreover have "\<forall>t. t \<in> set (groupedTables ?gs) \<longleftrightarrow>
        t \<in> set tables \<and> length (split (CHR ''_'') t) \<ge> 3"
    unfolding groupedTables_placements p by force
  ultimately show ?thesis using r by blast
qed

theorem groupTablesByDate_members_witness:
  "groupTablesByDate codeUnitCompare
     (Some [''foo_bar_baz'', ''2024_03_15_sales'', ''random_table''])
     = Inr [\<lparr>groupYear = ''foo'', months = [(''bar'', [''foo_bar_baz''])]\<rparr>,
            \<lparr>groupYear = ''2024'', months = [(''03'', [''2024_03_15_sales''])]\<rparr>] \<and>
   (''foo'', ''bar'', ''foo_bar_baz'') \<in> set (placements
      [\<lparr>groupYear = ''foo'', months = [(''bar'', [''foo_bar_baz''])]\<rparr>,
       \<lparr>groupYear = ''2024'', months = [(''03'', [''2024_03_15_sales''])]\<rparr>]) \<and>
   ''random_table'' \<notin> set (groupedTables
      [\<lparr>groupYear = ''foo'', months = [(''bar'', [''foo_bar_baz''])]\<rparr>,
       \<lparr>groupYear = ''2024'', months = [(''03'', [''2024_03_15_sales''])]\<rparr>])"
proof -
  have h: "\<forall>t\<in>set [''foo_bar_baz'', ''2024_03_15_sales'', ''random_table''].
      \<not> namesInheritedMember t"
    by (simp add: namesInheritedMember_def objectPrototypeMembers_def)
  have e: "groupTablesByDate codeUnitCompare
             (Some [''foo_bar_baz'', ''2024_03_15_sales'', ''random_table''])
           = Inr [\<lparr>groupYear = ''foo'', months = [(''bar'', [''foo_bar_baz''])]\<rparr>,
                  \<lparr>groupYear = ''2024'', months = [(''03'', [''2024_03_15_sales''])]\<rparr>]"
    by code_simp
  have s: "split (CHR ''_'') ''foo_bar_baz'' = [''foo'', ''bar'', ''baz'']"
    "split (CHR ''_'') ''random_table'' = [''random'', ''table'']"
    by simp_all
  from groupTablesByDate_members [OF h, of codeUnitCompare] e s show ?thesis
    by auto
qed

text \<open>
  The names left out of the statement above are those on which a read \<open>groups[year]\<close> or
  \<open>groups[year][month]\<close> finds an inherited member where the code expects a missing
  entry.  When the callback throws on one of them, so does the function.
\<close>

lemma groupTablesByDate_throws:
  "\<exists>t\<in>set tables. throwsOn t \<Longrightarrow> groupTablesByDate localeCompare (Some tables) = Inl TypeError"
  using forEachTable_throws [OF wellKeyed_empty] by (simp add: groupTablesByDate_def)

text \<open>
  C9 does not hold of the code.  The months of a year are sorted in descending numeric
  order and then put into an object by \<open>Object.fromEntries\<close>; an object enumerates the keys
  that are array indices (\<open>10\<close>, \<open>11\<close>, \<open>12\<close>, and months written without a leading zero)
  first and in ascending order.  So October and November come out as \<open>10\<close>, \<open>11\<close>, and
  September to December as \<open>10\<close>, \<open>11\<close>, \<open>12\<close>, \<open>09\<close>.  The example of the claim, whose
  months all have a leading zero, comes out as the claim says.
\<close>

theorem months_enumerated_ascending:
  "sortBy monthCompare [(''10'', [''2024_10_a'']), (''11'', [''2024_11_b''])]
     = [(''11'', [''2024_11_b'']), (''10'', [''2024_10_a''])] \<and>
   groupTablesByDate codeUnitCompare (Some [''2024_10_a'', ''2024_11_b''])
     = Inr [\<lparr>groupYear = ''2024'',
             months = [(''10'', [''2024_10_a'']), (''11'', [''2024_11_b''])]\<rparr>] \<and>
   groupTablesByDate codeUnitCompare
       (Some [''2024_09_a'', ''2024_10_b'', ''2024_11_c'', ''2024_12_d''])
     = Inr [\<lparr>groupYear = ''2024'',
             months = [(''10'', [''2024_10_b'']), (''11'', [''2024_11_c'']),
                       (''12'', [''2024_12_d'']), (''09'', [''2024_09_a''])]\<rparr>] \<and>
   groupTablesByDate codeUnitCompare (Some [''2024_01_a'', ''2024_02_b'', ''2023_12_c''])
     = Inr [\<lparr>groupYear = ''2024'',
             months = [(''02'', [''2024_02_b'']), (''01'', [''2024_01_a''])]\<rparr>,
            \<lparr>groupYear = ''2023'', months = [(''12'', [''2023_12_c''])]\<rparr>]"
  by code_simp

section \<open>Grouping datasets by category\<close>

lemma map_of_insertNew:
  "map_of obj k = None \<Longrightarrow> map_of (insertNew k v obj) = (map_of obj)(k \<mapsto> v)"
  by (induction obj) (auto split: if_splits)

lemma map_of_setProp: "map_of (setProp k v obj) = (map_of obj)(k \<mapsto> v)"
  by (auto simp: setProp_def getProp_def map_of_insertNew update_conv' split: option.splits)

lemma map_of_addDataset:
  "map_of (addDataset groups d) =
     (map_of groups)(categoryOf d \<mapsto>
        (case map_of groups (categoryOf d) of None \<Rightarrow> [d] | Some xs \<Rightarrow> xs @ [d]))"
  by (auto simp: addDataset_def Let_def getProp_def map_of_setProp split: option.splits)

lemma addDataset_distinct:
  "distinct (map fst groups) \<Longrightarrow> distinct (map fst (addDataset groups d))"
  by (auto simp: addDataset_def Let_def setProp_distinct split: option.splits)

lemma foldl_addDataset_distinct:
  "distinct (map fst groups) \<Longrightarrow> distinct (map fst (foldl addDataset groups ds))"
  by (induction ds arbitrary: groups) (auto simp: addDataset_distinct)

lemma map_of_foldl_addDataset:
  "map_of (foldl addDataset groups ds) c =
     (case map_of groups c of
        None \<Rightarrow> (if filter (\<lambda>d. categoryOf d = c) ds = [] then None
                  else Some (filter (\<lambda>d. categoryOf d = c) ds))
      | Some xs \<Rightarrow> Some (xs @ filter (\<lambda>d. categoryOf d = c) ds))"
proof (induction ds arbitrary: groups)
  case Nil
  then show ?case by (simp split: option.splits)
next
  case (Cons d ds)
  show ?case
    by (simp add: Cons.IH map_of_addDataset split: option.splits)
qed

lemma insertBy_sorted:
  assumes trans: "\<And>a b c. R a b \<Longrightarrow> R b c \<Longrightarrow> R a c"
    and le: "\<And>y. y \<in> set ys \<Longrightarrow> cmp x y \<le> 0 \<Longrightarrow> R x y"
    and gt: "\<And>y. y \<in> set ys \<Longrightarrow> \<not> cmp x y \<le> 0 \<Longrightarrow> R y x"
    and sorted: "sorted_wrt R ys"
  shows "sorted_wrt R (insertBy cmp x ys)"
  using le gt sorted
proof (induction ys)
  case Nil
  then show ?case by simp
next
  case (Cons y ys)
  show ?case
  proof (cases "cmp x y \<le> 0")
    case True
    then have xy: "R x y" using Cons.prems(1) by simp
    moreover have "\<forall>z\<in>set ys. R x z"
      using xy Cons.prems(3) trans by auto
    ultimately show ?thesis using True Cons.prems(3) by simp
  next
    case False
    then have yx: "R y x" using Cons.prems(2) by simp
    have "sorted_wrt R (insertBy cmp x ys)"
      using Cons.IH Cons.prems by simp
    then show ?thesis using False yx Cons.prems(3) by (simp add: insertBy_set)
  qed
qed

lemma sortBy_sorted:
  assumes trans: "\<And>a b c. R a b \<Longrightarrow> R b c \<Longrightarrow> R a c"
    and le: "\<And>x y. x \<in> set xs \<Longrightarrow> y \<in> set xs \<Longrightarrow> fst x \<noteq> fst y \<Longrightarrow> cmp x y \<le> 0 \<Longrightarrow> R x y"
    and gt: "\<And>x y. x \<in> set xs \<Longrightarrow> y \<in> set xs \<Longrightarrow> fst x \<noteq> fst y \<Longrightarrow> \<not> cmp x y \<le> 0 \<Longrightarrow> R y x"
    and dist: "distinct (map fst xs)"
  shows "sorted_wrt R (sortBy cmp xs)"
  using le gt dist
proof (induction xs)
  case Nil
  then show ?case by (simp add: sortBy_def)
next
  case (Cons x xs)
  have s: "sorted_wrt R (sortBy cmp xs)"
    using Cons by simp
  have k: "\<And>y. y \<in> set xs \<Longrightarrow> fst x \<noteq> fst y"
    using Cons.prems(3) by auto
  have "sorted_wrt R (insertBy cmp x (sortBy cmp xs))"
  proof (rule insertBy_sorted [OF trans _ _ s])
    fix y assume "y \<in> set (sortBy cmp xs)" "cmp x y \<le> 0"
    then show "R x y" using Cons.prems(1) [of x y] k by (simp add: sortBy_set)
  next
    fix y assume "y \<in> set (sortBy cmp xs)" "\<not> cmp x y \<le> 0"
    then show "R y x" using Cons.prems(2) [of x y] k by (simp add: sortBy_set)
  qed
  then show ?case by (simp add: sortBy_def)
qed

lemma otherLast_trans:
  "consistentComparator cmp \<Longrightarrow> otherLast cmp a b \<Longrightarrow> otherLast cmp b c \<Longrightarrow> otherLast cmp a c"
  unfolding consistentComparator_def otherLast_def by blast

lemma categoryCompare_le:
  "fst x \<noteq> fst y \<Longrightarrow> categoryCompare cmp x y \<le> 0 \<Longrightarrow> otherLast cmp (fst x) (fst y)"
  by (auto simp: categoryCompare_def otherLast_def split: if_splits)

lemma categoryCompare_gt:
  assumes "consistentComparator cmp" "fst x \<noteq> fst y" "\<not> categoryCompare cmp x y \<le> 0"
  shows "otherLast cmp (fst y) (fst x)"
proof -
  from assms(1) have anti: "\<And>a b. 0 < cmp a b \<Longrightarrow> cmp b a < 0"
    unfolding consistentComparator_def by blast
  show ?thesis
    using assms(2,3) anti [of "fst x" "fst y"]
    by (auto simp: categoryCompare_def otherLast_def split: if_splits)
qed

lemma categories_sorted:
  assumes "consistentComparator cmp" "distinct (map fst es)"
  shows "sorted_wrt (otherLast cmp) (map fst (sortBy (categoryCompare cmp) es))"
proof -
  have "sorted_wrt (\<lambda>x y. otherLast cmp (fst x) (fst y)) (sortBy (categoryCompare cmp) es)"
  proof (rule sortBy_sorted [OF _ _ _ assms(2)])
    fix a b c :: "string \<times> 'a"
    assume "otherLast cmp (fst a) (fst b)" "otherLast cmp (fst b) (fst c)"
    then show "otherLast cmp (fst a) (fst c)" using otherLast_trans [OF assms(1)] by blast
  next
    fix x y :: "string \<times> 'a"
    assume "fst x \<noteq> fst y" "categoryCompare cmp x y \<le> 0"
    then show "otherLast cmp (fst x) (fst y)" by (rule categoryCompare_le)
  next
    fix x y :: "string \<times> 'a"
    assume "fst x \<noteq> fst y" "\<not> categoryCompare cmp x y \<le> 0"
    then show "otherLast cmp (fst y) (fst x)" using categoryCompare_gt [OF assms(1)] by blast
  qed
  then show ?thesis by (simp add: sorted_wrt_map)
qed


lemma matchPrefix_first:
  "i < length pm \<Longrightarrow> startsWith d (fst (pm ! i)) \<Longrightarrow>
   \<forall>j<i. \<not> startsWith d (fst (pm ! j)) \<Longrightarrow> matchPrefix pm d = Some (snd (pm ! i))"
proof (induction pm arbitrary: i)
  case Nil
  then show ?case by simp
next
  case (Cons p pm)
  obtain q c where p: "p = (q, c)" by (cases p)
  show ?case
  proof (cases i)
    case 0
    with Cons.prems p show ?thesis by simp
  next
    case (Suc k)
    with Cons.prems have "\<not> startsWith d q" using p by auto
    moreover have "matchPrefix pm d = Some (snd (pm ! k))"
      using Cons.prems Suc by (intro Cons.IH) auto
    ultimately show ?thesis using p Suc by simp
  qed
qed

lemma matchPrefix_none:
  "\<forall>p\<in>set pm. \<not> startsWith d (fst p) \<Longrightarrow> matchPrefix pm d = None"
  by (induction pm) auto

lemma groupDatasets_groups:
  assumes "g \<in> set (groupDatasets cmp (Some ds))"
  shows "datasets g = sort (filter (\<lambda>d. categoryOf d = category g) ds) \<and>
         datasets g \<noteq> []"
proof -
  let ?es = "foldl addDataset [] ds"
  have d: "distinct (map fst ?es)" by (simp add: foldl_addDataset_distinct)
  from assms obtain c ms where cm: "(c, ms) \<in> set ?es"
    and g: "g = \<lparr>category = c, datasets = sortDefault ms\<rparr>"
    by (auto simp: groupDatasets_def sortBy_set Object_entries_def)
  from cm d have "map_of ?es c = Some ms" by simp
  then have ms: "ms = filter (\<lambda>d. categoryOf d = c) ds" and "ms \<noteq> []"
    by (simp_all add: map_of_foldl_addDataset split: if_splits)
  then have "length (sort ms) \<noteq> 0" by simp
  then have "sort ms \<noteq> []" by (simp del: length_sort)
  with g ms show ?thesis by (simp add: sortDefault_def)
qed

lemma groupDatasets_covers:
  assumes "d \<in> set ds"
  shows "categoryOf d \<in> category ` set (groupDatasets cmp (Some ds))"
proof -
  let ?es = "foldl addDataset [] ds"
  from assms have "filter (\<lambda>x. categoryOf x = categoryOf d) ds \<noteq> []"
    by (auto simp: filter_empty_conv)
  then have "map_of ?es (categoryOf d) = Some (filter (\<lambda>x. categoryOf x = categoryOf d) ds)"
    by (simp add: map_of_foldl_addDataset)
  then have "(categoryOf d, filter (\<lambda>x. categoryOf x = categoryOf d) ds) \<in> set ?es"
    by (rule map_of_SomeD)
  then show ?thesis
    by (force simp: groupDatasets_def sortBy_set Object_entries_def)
qed

lemma groupDatasets_categories:
  "map category (groupDatasets cmp (Some ds)) =
   map fst (sortBy (categoryCompare cmp) (foldl addDataset [] ds))"
  by (simp add: groupDatasets_def Object_entries_def case_prod_beta)

lemma example_entries:
  "foldl addDataset [] [''mtg_cards'', ''other_thing'', ''ck_prices''] =
     [(''Magic the Gathering'', [''mtg_cards'']), (''Other'', [''other_thing'']),
      (''Card Kingdom'', [''ck_prices''])]"
  by code_simp

lemma example_groups:
  assumes "consistentComparator cmp" "cmp ''Card Kingdom'' ''Magic the Gathering'' < 0"
  shows "groupDatasets cmp (Some [''mtg_cards'', ''other_thing'', ''ck_prices'']) =
     [\<lparr>category = ''Card Kingdom'', datasets = [''ck_prices'']\<rparr>,
      \<lparr>category = ''Magic the Gathering'', datasets = [''mtg_cards'']\<rparr>,
      \<lparr>category = ''Other'', datasets = [''other_thing'']\<rparr>]"
proof -
  from assms have "cmp ''Magic the Gathering'' ''Card Kingdom'' > 0"
    unfolding consistentComparator_def by blast
  moreover have "groupDatasets cmp (Some [''mtg_cards'', ''other_thing'', ''ck_prices'']) =
      map (\<lambda>(c, members). \<lparr>category = c, datasets = sortDefault members\<rparr>)
        (sortBy (categoryCompare cmp)
           [(''Magic the Gathering'', [''mtg_cards'']), (''Other'', [''other_thing'']),
            (''Card Kingdom'', [''ck_prices''])])"
    by (simp only: groupDatasets_def option.case example_entries Object_entries_def)
  ultimately show ?thesis
    by (simp add: sortBy_def categoryCompare_def sortDefault_def)
qed

text \<open>
  C5.  For every dataset list and every consistent collation \<open>localeCompare\<close>: the groups
  of \<open>groupDatasets\<close> have pairwise different categories; each group holds exactly the
  datasets of the list whose category it is, sorted (by code units, the order of
  \<open>sort()\<close>), and is not empty; every dataset of the list is in the group of its category;
  the groups are sorted by category under the collation, with \<open>Other\<close> last.  The category
  of a dataset is that of the first prefix of \<open>prefixMap\<close>, in declaration order, that the
  name starts with; if there is none, it is the first underscore-delimited segment with
  its first character in upper case when the name contains an underscore, and \<open>Other\<close>
  otherwise.  For mtg_cards, other_thing, ck_prices the result is Card Kingdom, Magic the
  Gathering, Other, in that order, under every collation that puts Card Kingdom before
  Magic the Gathering.
\<close>

theorem groupDatasets_sorted_groups:
  "consistentComparator localeCompare \<Longrightarrow>
   distinct (map category (groupDatasets localeCompare (Some ds)))
   \<and> (\<forall>g\<in>set (groupDatasets localeCompare (Some ds)).
        datasets g = sort (filter (\<lambda>d. categoryOf d = category g) ds) \<and> datasets g \<noteq> [])
   \<and> (\<forall>d\<in>set ds. categoryOf d \<in> category ` set (groupDatasets localeCompare (Some ds)))
   \<and> sorted_wrt (otherLast localeCompare) (map category (groupDatasets localeCompare (Some ds)))
   \<and> (i < length prefixMap \<and> startsWith d (fst (prefixMap ! i)) \<and>
        (\<forall>j<i. \<not> startsWith d (fst (prefixMap ! j))) \<longrightarrow>
        categoryOf d = snd (prefixMap ! i))
   \<and> ((\<forall>p\<in>set prefixMap. \<not> startsWith d (fst p)) \<longrightarrow>
        categoryOf d =
          (if stringIncludes d ''_''
           then toUpperCase (take 1 (hd (split (CHR ''_'') d))) @ drop 1 (hd (split (CHR ''_'') d))
           else ''Other''))
   \<and> (localeCompare ''Card Kingdom'' ''Magic the Gathering'' < 0 \<longrightarrow>
        groupDatasets localeCompare (Some [''mtg_cards'', ''other_thing'', ''ck_prices'']) =
          [\<lparr>category = ''Card Kingdom'', datasets = [''ck_prices'']\<rparr>,
           \<lparr>category = ''Magic the Gathering'', datasets = [''mtg_cards'']\<rparr>,
           \<lparr>category = ''Other'', datasets = [''other_thing'']\<rparr>])"
proof (intro conjI ballI impI)
  assume c: "consistentComparator localeCompare"
  have d: "distinct (map fst (foldl addDataset [] ds))"
    by (simp add: foldl_addDataset_distinct)
  show "distinct (map category (groupDatasets localeCompare (Some ds)))"
    using d by (simp only: groupDatasets_categories sortBy_keys)
  show "sorted_wrt (otherLast localeCompare) (map category (groupDatasets localeCompare (Some ds)))"
    using categories_sorted [OF c d] by (simp only: groupDatasets_categories)
next
  fix g assume "g \<in> set (groupDatasets localeCompare (Some ds))"
  from groupDatasets_groups [OF this]
  show "datasets g = sort (filter (\<lambda>d. categoryOf d = category g) ds)"
    and "datasets g \<noteq> []"
    by auto
next
  fix d assume "d \<in> set ds"
  then show "categoryOf d \<in> category ` set (groupDatasets localeCompare (Some ds))"
    by (rule groupDatasets_covers)
next
  assume "i < length prefixMap \<and> startsWith d (fst (prefixMap ! i)) \<and>
        (\<forall>j<i. \<not> startsWith d (fst (prefixMap ! j)))"
  then have "matchPrefix prefixMap d = Some (snd (prefixMap ! i))"
    using matchPrefix_first by blast
  then show "categoryOf d = snd (prefixMap ! i)" by (simp add: categoryOf_def)
next
  assume "\<forall>p\<in>set prefixMap. \<not> startsWith d (fst p)"
  then have "matchPrefix prefixMap d = None" by (rule matchPrefix_none)
  then show "categoryOf d =
          (if stringIncludes d ''_''
           then toUpperCase (take 1 (hd (split (CHR ''_'') d))) @ drop 1 (hd (split (CHR ''_'') d))
           else ''Other'')"
    by (simp add: categoryOf_def Let_def)
next
  assume "consistentComparator localeCompare"
    and "localeCompare ''Card Kingdom'' ''Magic the Gathering'' < 0"
  then show "groupDatasets localeCompare (Some [''mtg_cards'', ''other_thing'', ''ck_prices'']) =
          [\<lparr>category = ''Card Kingdom'', datasets = [''ck_prices'']\<rparr>,
           \<lparr>category = ''Magic the Gathering'', datasets = [''mtg_cards'']\<rparr>,
           \<lparr>category = ''Other'', datasets = [''other_thing'']\<rparr>]"
    by (rule example_groups)
qed


lemma codeUnitCompare_consistent: "consistentComparator codeUnitCompare"
  by (auto simp: consistentComparator_def codeUnitCompare_def split: if_splits)

theorem groupDatasets_sorted_groups_witness:
  "groupDatasets codeUnitCompare (Some [''mtg_cards'', ''other_thing'', ''ck_prices'']) =
     [\<lparr>category = ''Card Kingdom'', datasets = [''ck_prices'']\<rparr>,
      \<lparr>category = ''Magic the Gathering'', datasets = [''mtg_cards'']\<rparr>,
      \<lparr>category = ''Other'', datasets = [''other_thing'']\<rparr>] \<and>
   categoryOf ''ckx'' = ''Card Kingdom'' \<and>
   categoryOf ''abc_def'' = ''Abc'' \<and>
   categoryOf ''zeta'' = ''Other'' \<and>
   sorted_wrt (otherLast codeUnitCompare)
     (map category (groupDatasets codeUnitCompare (Some [''zeta'', ''mtg_b'', ''abc_def'', ''mtg_a'']))) \<and>
   groupDatasets codeUnitCompare (Some [''zeta'', ''mtg_b'', ''abc_def'', ''mtg_a'']) =
     [\<lparr>category = ''Abc'', datasets = [''abc_def'']\<rparr>,
      \<lparr>category = ''Magic the Gathering'', datasets = [''mtg_a'', ''mtg_b'']\<rparr>,
      \<lparr>category = ''Other'', datasets = [''zeta'']\<rparr>]"
proof -
  have lt: "codeUnitCompare ''Card Kingdom'' ''Magic the Gathering'' < 0"
    by (simp add: codeUnitCompare_def)
  have ck: "3 < length prefixMap \<and> startsWith ''ckx'' (fst (prefixMap ! 3)) \<and>
      (\<forall>j<3. \<not> startsWith ''ckx'' (fst (prefixMap ! j)))"
    by (simp add: prefixMap_def startsWith_def less_Suc_eq numeral_3_eq_3)
  have none: "\<forall>p\<in>set prefixMap. \<not> startsWith ''abc_def'' (fst p)"
    "\<forall>p\<in>set prefixMap. \<not> startsWith ''zeta'' (fst p)"
    by (simp_all add: prefixMap_def startsWith_def)
  have ev: "stringIncludes ''abc_def'' ''_''" "\<not> stringIncludes ''zeta'' ''_''"
    "toUpperCase (take 1 (hd (split (CHR ''_'') ''abc_def''))) @
       drop 1 (hd (split (CHR ''_'') ''abc_def'')) = ''Abc''"
    "snd (prefixMap ! 3) = ''Card Kingdom''"
    "groupDatasets codeUnitCompare (Some [''zeta'', ''mtg_b'', ''abc_def'', ''mtg_a'']) =
     [\<lparr>category = ''Abc'', datasets = [''abc_def'']\<rparr>,
      \<lparr>category = ''Magic the Gathering'', datasets = [''mtg_a'', ''mtg_b'']\<rparr>,
      \<lparr>category = ''Other'', datasets = [''zeta'']\<rparr>]"
    by code_simp+
  note t = groupDatasets_sorted_groups [OF codeUnitCompare_consistent]
  note t1 = t [of "[''zeta'', ''mtg_b'', ''abc_def'', ''mtg_a'']" 3 "''ckx''"]
  note t2 = t [of "[]" 0 "''abc_def''"]
  note t3 = t [of "[]" 0 "''zeta''"]
  show ?thesis
    using t1 t2 t3 lt ck none ev by simp
qed


text \<open>
  A category is never the name of a member of \<open>Object.prototype\<close>, so the reads
  \<open>groups[category]\<close> of \<open>groupDatasets\<close> only ever see own properties.
\<close>

lemma proto_first_letter:
  "n \<in> set objectPrototypeMembers \<Longrightarrow> n \<noteq> [] \<and> hd n \<in> set ''chiptv''"
  by (auto simp: objectPrototypeMembers_def)

lemma letters_length: "length lowerCaseLetters = length upperCaseLetters"
  by (simp add: lowerCaseLetters_def upperCaseLetters_def)

lemma upper_not_lower: "c \<in> set upperCaseLetters \<Longrightarrow> c \<notin> set ''chiptv''"
  by (auto simp: upperCaseLetters_def)

lemma lower_has: "c \<in> set ''chiptv'' \<Longrightarrow> c \<in> set lowerCaseLetters"
  by (auto simp: lowerCaseLetters_def)

lemma toUpperCaseChar_first:
  "toUpperCaseChar c \<noteq> [] \<and> hd (toUpperCaseChar c) \<notin> set ''chiptv''"
proof (cases "c = CHR 0xDF")
  case True
  then show ?thesis by (simp add: toUpperCaseChar_def)
next
  case False
  show ?thesis
  proof (cases "map_of (zip lowerCaseLetters upperCaseLetters) c")
    case None
    then have "c \<notin> set lowerCaseLetters"
      by (metis map_of_eq_None_iff map_fst_zip set_map letters_length)
    then have "c \<notin> set ''chiptv''" using lower_has by blast
    with None False show ?thesis by (simp add: toUpperCaseChar_def)
  next
    case (Some d)
    then have "d \<in> set upperCaseLetters"
      by (meson map_of_SomeD set_zip_rightD)
    then have "d \<notin> set ''chiptv''" by (rule upper_not_lower)
    with Some False show ?thesis by (simp add: toUpperCaseChar_def)
  qed
qed

lemma capitalized_not_inherited:
  "toUpperCase (take 1 p) @ drop 1 p \<notin> set objectPrototypeMembers"
proof (cases p)
  case Nil
  then show ?thesis by (simp add: toUpperCase_def objectPrototypeMembers_def)
next
  case (Cons c cs)
  obtain x xs where u: "toUpperCaseChar c = x # xs" "x \<notin> set ''chiptv''"
    using toUpperCaseChar_first [of c] by (cases "toUpperCaseChar c") auto
  then have "hd (toUpperCase (take 1 p) @ drop 1 p) \<notin> set ''chiptv''"
    using Cons by (simp add: toUpperCase_def)
  then show ?thesis using proto_first_letter by blast
qed

lemma matchPrefix_range: "matchPrefix pm d = Some c \<Longrightarrow> c \<in> snd ` set pm"
  by (induction pm) (auto split: if_splits)

lemma categoryOf_not_inherited: "categoryOf d \<notin> set objectPrototypeMembers"
proof (cases "matchPrefix prefixMap d")
  case None
  then show ?thesis
    using capitalized_not_inherited
    by (simp add: categoryOf_def Let_def) (simp add: objectPrototypeMembers_def)
next
  case (Some c)
  then have "c \<in> snd ` set prefixMap" by (rule matchPrefix_range)
  then have "c \<notin> set objectPrototypeMembers"
    by (auto simp: prefixMap_def objectPrototypeMembers_def)
  with Some show ?thesis by (simp add: categoryOf_def)
qed

end
